theory Spec2Isabelle
  imports Complex_Main "HOL-Library.Char_ord" "HOL-Library.List_Lexorder"
begin

section \<open>The marketplace ledger: data model\<close>

text \<open>
  The server (\<^verbatim>\<open>src/index.tsx\<close>) keeps three SQL tables, \<^verbatim>\<open>clients\<close>, \<^verbatim>\<open>coins\<close> and
  \<^verbatim>\<open>transactions\<close>. A table is modelled as the list of its rows in insertion order, a
  row as a record with the columns the handlers read and write. Identifiers and the
  three bits of a coin are integers. A coin's value and a transaction's amount reach the
  handlers as JavaScript numbers (\<^verbatim>\<open>value: number\<close>): finite doubles, modelled as the
  rational numbers they are. SQL \<^verbatim>\<open>NULL\<close> (JavaScript \<^verbatim>\<open>null\<close> and \<^verbatim>\<open>undefined\<close>) is \<open>None\<close>,
  text is a \<open>string\<close> of UTF-8 bytes ordered bytewise, as SQLite's default collation
  orders it.
\<close>

record client =
  cl_id :: int
  cl_name :: string
  cl_email :: string
  cl_password :: string
  cl_phone :: "string option"
  cl_address :: "string option"

text \<open>The interface \<^verbatim>\<open>CoinRow\<close>; the column \<^verbatim>\<open>value\<close> is the field \<open>coin_value\<close>.\<close>

record coin =
  coin_id :: int
  coin_value :: rat
  bit1 :: int
  bit2 :: int
  bit3 :: int
  client_id :: "int option"

record transaction =
  tx_id :: int
  tx_coin_id :: int
  amount :: rat
  transaction_date :: string
  seller_id :: "int option"
  buyer_id :: int

record db =
  clients :: "client list"
  coins :: "coin list"
  transactions :: "transaction list"

section \<open>JavaScript numbers\<close>

text \<open>
  A JavaScript number is a double: not-a-number, an infinity, or a finite double, which
  is a rational number. The result of an arithmetic operation is the exact result rounded
  to the nearest double, ties to the even significand (IEEE 754 binary64: a significand of
  53 bits, exponents from -1022 to 1023, below them a fixed spacing); an exact result
  that rounds beyond the largest double is an infinity. The two infinities
  are one value here, since the handlers treat them alike.
\<close>

datatype number = NaN | Infinity | Finite rat

text \<open>The number of binary digits of a positive integer.\<close>

function bits :: "int \<Rightarrow> int" where
  "bits n = (if n \<le> 0 then 0 else 1 + bits (n div 2))"
  by pat_completeness auto
termination
  by (relation "measure nat") auto

declare bits.simps [simp del]

definition pow2 :: "int \<Rightarrow> rat" where
  "pow2 e = (if 0 \<le> e then 2 ^ nat e else 1 / 2 ^ nat (- e))"

text \<open>The exponent of a positive rational \<open>x\<close>: the \<open>e\<close> with \<open>pow2 e \<le> x < pow2 (e + 1)\<close>.\<close>

definition exponent_of :: "rat \<Rightarrow> int" where
  "exponent_of x = (case quotient_of x of (p, q) \<Rightarrow>
     let e0 = bits p - bits q
     in if pow2 e0 \<le> x then e0 else e0 - 1)"

definition round_half_even :: "rat \<Rightarrow> int" where
  "round_half_even m =
     (let f = \<lfloor>m\<rfloor>; r = m - of_int f
      in if r > 1 / 2 \<or> (r = 1 / 2 \<and> odd f) then f + 1 else f)"

text \<open>
  The significand and the exponent of the double nearest to a rational \<open>x\<close> other than 0:
  the double is \<open>n * pow2 (e - 52)\<close>, with the sign of \<open>x\<close>.
\<close>

definition significand_exponent :: "rat \<Rightarrow> int \<times> int" where
  "significand_exponent x =
     (let a = \<bar>x\<bar>; e = max (exponent_of a) (- 1022)
      in (round_half_even (a / pow2 (e - 52)), e))"

definition round_double :: "rat \<Rightarrow> rat" where
  "round_double x =
     (if x = 0 then 0
      else case significand_exponent x of (n, e) \<Rightarrow> sgn x * of_int n * pow2 (e - 52))"

definition to_number :: "rat \<Rightarrow> number" where
  "to_number x =
     (if x = 0 then Finite 0
      else case significand_exponent x of (n, e) \<Rightarrow>
        if e > 1023 \<or> (e = 1023 \<and> n \<ge> 2 ^ 53) then Infinity else Finite (round_double x))"

text \<open>\<^verbatim>\<open>x - 1\<close> and \<^verbatim>\<open>x * y\<close> on numbers.\<close>

definition js_minus_one :: "number \<Rightarrow> number" where
  "js_minus_one x = (case x of NaN \<Rightarrow> NaN | Infinity \<Rightarrow> Infinity | Finite a \<Rightarrow> to_number (a - 1))"

definition js_times :: "number \<Rightarrow> number \<Rightarrow> number" where
  "js_times x y =
     (case x of
        NaN \<Rightarrow> NaN
      | Infinity \<Rightarrow> (case y of NaN \<Rightarrow> NaN | Infinity \<Rightarrow> Infinity
                      | Finite b \<Rightarrow> if b = 0 then NaN else Infinity)
      | Finite a \<Rightarrow> (case y of NaN \<Rightarrow> NaN
                      | Infinity \<Rightarrow> if a = 0 then NaN else Infinity
                      | Finite b \<Rightarrow> to_number (a * b)))"

text \<open>\<^verbatim>\<open>x + v\<close> for a number \<open>x\<close> and a finite double \<open>v\<close>.\<close>

definition js_plus :: "number \<Rightarrow> rat \<Rightarrow> number" where
  "js_plus x v = (case x of NaN \<Rightarrow> NaN | Infinity \<Rightarrow> Infinity | Finite a \<Rightarrow> to_number (a + v))"

text \<open>
  \<^verbatim>\<open>Number.parseInt(text, 10)\<close> of a search parameter: not-a-number when the text does not
  begin with an integer, else that integer as a number.
\<close>

datatype parsed = NotANumber | Digits int

definition parseInt :: "parsed \<Rightarrow> number" where
  "parseInt p = (case p of NotANumber \<Rightarrow> NaN | Digits n \<Rightarrow> to_number (of_int n))"

section \<open>Responses\<close>

text \<open>
  What a handler answers: a JSON object with a \<^verbatim>\<open>message\<close> field, a plain text body, or
  the JSON payload of a read endpoint, each with its HTTP status (a response built
  without a status has status 200).
\<close>

record tx_out =
  o_id :: int
  o_coin_id :: int
  o_amount :: rat
  o_transaction_date :: string
  o_seller_id :: "int option"
  o_seller_name :: "string option"
  o_buyer_id :: int
  o_buyer_name :: string
  o_bit1 :: int
  o_bit2 :: int
  o_bit3 :: int
  o_value :: rat
  o_computedBitSlow :: string

record history_row =
  h_id :: int
  h_coin_id :: int
  h_transaction_date :: string
  h_seller_name :: "string option"
  h_buyer_name :: string

record coin_out =
  co_coin_id :: int
  co_value :: rat
  co_bit1 :: int
  co_bit2 :: int
  co_bit3 :: int
  co_client_id :: "int option"
  co_owner_name :: "string option"
  co_computedBitSlow :: string

datatype response =
    Message nat string
  | Plain nat string
  | LoginOK int string
  | TransactionsPage "tx_out list" nat number number
  | CoinsPage "coin_out list" nat number number
  | Profile nat nat number
  | History "history_row list"

fun status :: "response \<Rightarrow> nat" where
  "status (Message s m) = s"
| "status (Plain s m) = s"
| "status (LoginOK _ _) = 200"
| "status (TransactionsPage _ _ _ _) = 200"
| "status (CoinsPage _ _ _ _) = 200"
| "status (Profile _ _ _) = 200"
| "status (History _) = 200"

section \<open>The database engine\<close>

text \<open>
  Modelled from the spec: the schema (module \<^verbatim>\<open>./seed\<close>) is not among the sources. The
  spec gives every table a unique generated identifier; the engine's generated key is
  modelled as one more than the greatest key of the table (1 for an empty table), which
  is what SQLite assigns to an integer primary key. The engine checks no reference from
  one table to another. Of the columns, the \<^verbatim>\<open>buyer_id\<close> of a transaction is not null
  (the spec has the seller nullable, the buyer not): an insert of a transaction without
  buyer fails.
\<close>

definition next_id :: "int list \<Rightarrow> int" where
  "next_id ids = 1 + fold max ids 0"

text \<open>JavaScript truthiness of a value of type \<^verbatim>\<open>number | null\<close>: neither null nor 0.\<close>

definition truthy_num :: "int option \<Rightarrow> bool" where
  "truthy_num x = (case x of None \<Rightarrow> False | Some n \<Rightarrow> n \<noteq> 0)"

section \<open>Buying a coin\<close>

text \<open>
  The handler of \<^verbatim>\<open>/api/buy\<close>. Its arguments are the request's method, the value of
  \<^verbatim>\<open>new Date().toISOString()\<close> at the request, and the parsed body: \<^verbatim>\<open>coin_id\<close>, a
  number, and \<^verbatim>\<open>buyer_id\<close>, a number or \<open>None\<close> when the body has no \<^verbatim>\<open>buyer_id\<close> (or
  null). The body itself is \<open>None\<close> when \<^verbatim>\<open>req.json()\<close> throws, which the handler's
  \<^verbatim>\<open>catch\<close> answers with status 500. The handler writes twice, first the owner, then the
  transaction, with nothing that undoes the first write when the second fails: the
  insert of a transaction without buyer fails, and the \<^verbatim>\<open>catch\<close> answers 500 on the
  database the update left.
\<close>

definition api_buy :: "string \<Rightarrow> string \<Rightarrow> (int \<times> int option) option \<Rightarrow> db \<Rightarrow> response \<times> db" where
  "api_buy meth now body d =
     (if meth \<noteq> ''POST'' then (Plain 405 ''Method Not Allowed'', d)
      else case body of
        None \<Rightarrow> (Message 500 ''Error buying coin'', d)
      | Some (coin_id', buyer_id') \<Rightarrow>
          (case find (\<lambda>c. coin_id c = coin_id') (coins d) of
             None \<Rightarrow> (Message 404 ''Coin not found'', d)
           | Some coin \<Rightarrow>
               if truthy_num (client_id coin) \<and> client_id coin = buyer_id'
               then (Message 400 ''This coin is already yours'', d)
               else
                 let seller_id' = (if truthy_num (client_id coin) then client_id coin else None);
                     d1 = d\<lparr>coins := map (\<lambda>c. if coin_id c = coin_id'
                                                 then c\<lparr>client_id := buyer_id'\<rparr> else c) (coins d)\<rparr>;
                     amount' = coin_value coin
                 in case buyer_id' of
                      None \<Rightarrow> (Message 500 ''Error buying coin'', d1)
                    | Some buyer \<Rightarrow>
                        (Message 200 ''Coin purchased successfully'',
                         d1\<lparr>transactions := transactions d1 @
                            [\<lparr>tx_id = next_id (map tx_id (transactions d1)),
                              tx_coin_id = coin_id', amount = amount',
                              transaction_date = now, seller_id = seller_id',
                              buyer_id = buyer\<rparr>]\<rparr>)))"

section \<open>Generating a coin\<close>

text \<open>
  The handler of \<^verbatim>\<open>/api/generate-coin\<close>. \<open>used\<close> is the result of
  \<^verbatim>\<open>SELECT bit1, bit2, bit3 FROM coins\<close>. The random source \<open>rnd\<close> gives, for the
  \<open>i\<close>-th call of \<^verbatim>\<open>Math.random()\<close> of the request, the number
  \<^verbatim>\<open>Math.floor(Math.random() * 100)\<close>; each pass of the loop makes three calls. The body
  is the \<^verbatim>\<open>amount\<close>, a finite number.
\<close>

definition isUsed :: "(int \<times> int \<times> int) list \<Rightarrow> int \<Rightarrow> int \<Rightarrow> int \<Rightarrow> bool" where
  "isUsed used b1 b2 b3 = list_ex (\<lambda>(u1, u2, u3). u1 = b1 \<and> u2 = b2 \<and> u3 = b3) used"

definition draw :: "(nat \<Rightarrow> nat) \<Rightarrow> nat \<Rightarrow> int \<times> int \<times> int" where
  "draw rnd k = (int (rnd (3 * k)) + 1, int (rnd (3 * k + 1)) + 1, int (rnd (3 * k + 2)) + 1)"

function draw_loop :: "(nat \<Rightarrow> nat) \<Rightarrow> (int \<times> int \<times> int) list \<Rightarrow> nat \<Rightarrow> nat \<times> int \<times> int \<times> int" where
  "draw_loop rnd used attempts =
     (case draw rnd attempts of (b1, b2, b3) \<Rightarrow>
        if attempts + 1 > 10000 then (attempts + 1, b1, b2, b3)
        else if isUsed used b1 b2 b3 then draw_loop rnd used (attempts + 1)
        else (attempts + 1, b1, b2, b3))"
  by pat_completeness auto
termination
  by (relation "measure (\<lambda>(rnd, used, attempts). 10001 - attempts)") auto

declare draw_loop.simps [simp del]

definition api_generate_coin :: "string \<Rightarrow> (nat \<Rightarrow> nat) \<Rightarrow> rat option \<Rightarrow> db \<Rightarrow> response \<times> db" where
  "api_generate_coin meth rnd body d =
     (if meth \<noteq> ''POST'' then (Plain 405 ''Method Not Allowed'', d)
      else case body of
        None \<Rightarrow> (Message 500 ''Error generating coin'', d)
      | Some amount' \<Rightarrow>
          (let used = map (\<lambda>c. (bit1 c, bit2 c, bit3 c)) (coins d)
           in case draw_loop rnd used 0 of (attempts, b1, b2, b3) \<Rightarrow>
                if attempts > 10000
                then (Message 400 ''No unique combinations remaining'', d)
                else (Message 201 ''Coin generated successfully'',
                      d\<lparr>coins := coins d @
                          [\<lparr>coin_id = next_id (map coin_id (coins d)), coin_value = amount',
                            bit1 = b1, bit2 = b2, bit3 = b3, client_id = None\<rparr>]\<rparr>)))"

section \<open>Registration and login\<close>

text \<open>
  The handlers of \<^verbatim>\<open>/api/register\<close> and \<^verbatim>\<open>/api/login\<close>. \<open>hash\<close> stands for
  \<^verbatim>\<open>bcrypt.hash(password, 10)\<close> and \<open>compare\<close> for \<^verbatim>\<open>bcrypt.compare\<close>, both of a library
  outside the repository.
\<close>

record register_body =
  rb_name :: string
  rb_email :: string
  rb_password :: string
  rb_phone :: "string option"
  rb_address :: "string option"

definition api_register :: "string \<Rightarrow> (string \<Rightarrow> string) \<Rightarrow> register_body option \<Rightarrow> db \<Rightarrow> response \<times> db" where
  "api_register meth hash body d =
     (if meth = ''POST'' then
        (case body of
           None \<Rightarrow> (Message 500 ''Registration failed.'', d)
         | Some b \<Rightarrow>
             (case find (\<lambda>c. cl_email c = rb_email b) (clients d) of
                Some existingUser \<Rightarrow> (Message 400 ''Email already exists.'', d)
              | None \<Rightarrow>
                  let hashedPassword = hash (rb_password b)
                  in (Message 201 ''Registration successful.'',
                      d\<lparr>clients := clients d @
                          [\<lparr>cl_id = next_id (map cl_id (clients d)), cl_name = rb_name b,
                            cl_email = rb_email b, cl_password = hashedPassword,
                            cl_phone = rb_phone b, cl_address = rb_address b\<rparr>]\<rparr>)))
      else (Plain 405 ''Method Not Allowed'', d))"

definition api_login :: "string \<Rightarrow> (string \<Rightarrow> string \<Rightarrow> bool) \<Rightarrow> (string \<times> string) option \<Rightarrow> db \<Rightarrow> response \<times> db" where
  "api_login meth compare body d =
     (if meth = ''POST'' then
        (case body of
           None \<Rightarrow> (Message 500 ''Login failed.'', d)
         | Some (email, password) \<Rightarrow>
             (case find (\<lambda>c. cl_email c = email) (clients d) of
                None \<Rightarrow> (Message 404 ''User not found.'', d)
              | Some user \<Rightarrow>
                  if \<not> compare password (cl_password user)
                  then (Message 401 ''Incorrect password.'', d)
                  else (LoginOK (cl_id user) (cl_name user), d)))
      else (Plain 405 ''Method Not Allowed'', d))"

section \<open>SQL operators\<close>

text \<open>
  SQLite's \<^verbatim>\<open>LIKE\<close>, on text in UTF-8: \<^verbatim>\<open>%\<close> matches any run of characters, \<^verbatim>\<open>_\<close>
  any one character, and ASCII letters match without regard to case. A character is a
  byte together with the continuation bytes (\<open>0x80\<close> to \<open>0xBF\<close>) that follow it when it is
  \<open>0xC0\<close> or more. The first argument is the pattern.
\<close>

definition ascii_lower :: "char \<Rightarrow> char" where
  "ascii_lower c = (if CHR ''A'' \<le> c \<and> c \<le> CHR ''Z'' then char_of (of_char c + (32::nat)) else c)"

definition continuation :: "char \<Rightarrow> bool" where
  "continuation c = (CHR 0x80 \<le> c \<and> c \<le> CHR 0xBF)"

fun drop_char :: "string \<Rightarrow> string" where
  "drop_char [] = []"
| "drop_char (c # cs) = (if CHR 0xC0 \<le> c then dropWhile continuation cs else cs)"

function sql_like :: "string \<Rightarrow> string \<Rightarrow> bool" where
  "sql_like [] s = (s = [])"
| "sql_like (p # ps) [] = (p = CHR ''%'' \<and> sql_like ps [])"
| "sql_like (p # ps) (c # cs) =
     (if p = CHR ''%'' then sql_like ps (c # cs) \<or> sql_like (p # ps) (drop_char (c # cs))
      else if p = CHR ''_'' then sql_like ps (drop_char (c # cs))
      else ascii_lower p = ascii_lower c \<and> sql_like ps cs)"
  by pat_completeness auto
termination
  by (relation "measure (\<lambda>(p, s). length p + length s)")
    (auto simp: less_Suc_eq_le intro: le_SucI length_dropWhile_le)

text \<open>
  A parameter bound to \<^verbatim>\<open>LIMIT ?\<close> or \<^verbatim>\<open>OFFSET ?\<close> has to be an integer of 64 bits: a
  number is taken when it is an integer strictly between \<open>- (2 ^ 63)\<close> and \<open>2 ^ 63\<close>,
  and the statement fails with ``datatype mismatch'' on any other.
\<close>

definition sql_int :: "number \<Rightarrow> int option" where
  "sql_int x =
     (case x of
        Finite r \<Rightarrow> if r = of_int \<lfloor>r\<rfloor> \<and> - (2 ^ 63) < r \<and> r < 2 ^ 63 then Some \<lfloor>r\<rfloor> else None
      | _ \<Rightarrow> None)"

text \<open>
  \<^verbatim>\<open>LIMIT ? OFFSET ?\<close>: a negative limit is no limit, a negative offset is offset 0
  (SQLite's rule for both).
\<close>

definition sql_limit_offset :: "int \<Rightarrow> int \<Rightarrow> 'a list \<Rightarrow> 'a list" where
  "sql_limit_offset l off rows =
     (if l < 0 then drop (nat off) rows else take (nat l) (drop (nat off) rows))"

text \<open>\<^verbatim>\<open>SELECT MAX(id)\<close>: \<^verbatim>\<open>NULL\<close> over no rows.\<close>

definition sql_max :: "int list \<Rightarrow> int option" where
  "sql_max xs = (case xs of [] \<Rightarrow> None | x # ys \<Rightarrow> Some (fold max ys x))"

text \<open>
  \<^verbatim>\<open>FROM transactions t LEFT JOIN clients seller ON t.seller_id = seller.id
  JOIN clients buyer ON t.buyer_id = buyer.id\<close>: one row for every transaction, seller
  (or \<^verbatim>\<open>NULL\<close> when no client matches) and buyer that satisfy the join conditions.
\<close>

definition left_join_seller :: "client list \<Rightarrow> transaction \<Rightarrow> client option list" where
  "left_join_seller cs t =
     (case filter (\<lambda>s. seller_id t = Some (cl_id s)) cs of
        [] \<Rightarrow> [None]
      | ss \<Rightarrow> map Some ss)"

definition join_buyer :: "client list \<Rightarrow> transaction \<Rightarrow> client list" where
  "join_buyer cs t = filter (\<lambda>b. buyer_id t = cl_id b) cs"

section \<open>Listing transactions\<close>

text \<open>
  The handler of \<^verbatim>\<open>/api/transactions\<close>. The query holds the search parameters:
  \<^verbatim>\<open>page\<close> and \<^verbatim>\<open>limit\<close> as text for \<^verbatim>\<open>parseInt\<close> (\<open>None\<close> when the parameter is
  absent or empty, so that the default applies), the two value bounds as the numbers
  their text denotes, the other filters as text. A filter is applied when its parameter
  is truthy, that is present and not the empty string. \<open>cbs\<close> stands for
  \<^verbatim>\<open>computeBitSlow\<close> of the module \<^verbatim>\<open>./bitslow\<close>, which is not among the sources.
  The handler never reads the request's method. When the select statement fails on the
  limit or the offset bound to it, the handler's \<^verbatim>\<open>catch\<close> answers status 500 with the
  error's message.
\<close>

record tx_query =
  q_page :: "parsed option"
  q_limit :: "parsed option"
  startDate :: "string option"
  endDate :: "string option"
  minValue :: "rat option"
  maxValue :: "rat option"
  buyerName :: "string option"
  sellerName :: "string option"

type_synonym joined = "transaction \<times> client option \<times> client \<times> coin"

definition tx_from :: "db \<Rightarrow> joined list" where
  "tx_from d =
     concat (map (\<lambda>t.
       concat (map (\<lambda>s.
         concat (map (\<lambda>b.
           map (\<lambda>c. (t, s, b, c)) (filter (\<lambda>c. tx_coin_id t = coin_id c) (coins d)))
         (join_buyer (clients d) t)))
       (left_join_seller (clients d) t)))
     (transactions d))"

definition clause_str :: "string option \<Rightarrow> (string \<Rightarrow> joined \<Rightarrow> bool) \<Rightarrow> (joined \<Rightarrow> bool) list" where
  "clause_str x p = (case x of None \<Rightarrow> [] | Some v \<Rightarrow> if v = [] then [] else [p v])"

definition clause_num :: "rat option \<Rightarrow> (rat \<Rightarrow> joined \<Rightarrow> bool) \<Rightarrow> (joined \<Rightarrow> bool) list" where
  "clause_num x p = (case x of None \<Rightarrow> [] | Some v \<Rightarrow> [p v])"

definition whereClauses :: "tx_query \<Rightarrow> (joined \<Rightarrow> bool) list" where
  "whereClauses q =
     clause_str (startDate q) (\<lambda>v (t, s, b, c). transaction_date t \<ge> v) @
     clause_str (endDate q) (\<lambda>v (t, s, b, c). transaction_date t \<le> v) @
     clause_num (minValue q) (\<lambda>v (t, s, b, c). coin_value c \<ge> v) @
     clause_num (maxValue q) (\<lambda>v (t, s, b, c). coin_value c \<le> v) @
     clause_str (buyerName q) (\<lambda>v (t, s, b, c). sql_like (''%'' @ v @ ''%'') (cl_name b)) @
     clause_str (sellerName q) (\<lambda>v (t, s, b, c).
        case s of None \<Rightarrow> False | Some s' \<Rightarrow> sql_like (''%'' @ v @ ''%'') (cl_name s'))"

text \<open>\<^verbatim>\<open>WHERE\<close> with the clauses joined by \<^verbatim>\<open>AND\<close>; no clause, no condition.\<close>

definition whereSql :: "(joined \<Rightarrow> bool) list \<Rightarrow> joined \<Rightarrow> bool" where
  "whereSql cls row = list_all (\<lambda>p. p row) cls"

definition select_tx :: "(int \<Rightarrow> int \<Rightarrow> int \<Rightarrow> string) \<Rightarrow> joined \<Rightarrow> tx_out" where
  "select_tx cbs row = (case row of (t, s, b, c) \<Rightarrow>
     \<lparr>o_id = tx_id t, o_coin_id = tx_coin_id t, o_amount = amount t,
      o_transaction_date = transaction_date t,
      o_seller_id = map_option cl_id s, o_seller_name = map_option cl_name s,
      o_buyer_id = cl_id b, o_buyer_name = cl_name b,
      o_bit1 = bit1 c, o_bit2 = bit2 c, o_bit3 = bit3 c, o_value = coin_value c,
      o_computedBitSlow = cbs (bit1 c) (bit2 c) (bit3 c)\<rparr>)"

text \<open>
  \<^verbatim>\<open>ORDER BY t.transaction_date DESC\<close>: a stable sort, rows of equal date stay in the
  order of their insertion, as the server returns them.
\<close>

definition order_by_date_desc :: "joined list \<Rightarrow> joined list" where
  "order_by_date_desc rows = rev (sort_key (\<lambda>(t, s, b, c). transaction_date t) (rev rows))"

definition selectQuery :: "db \<Rightarrow> tx_query \<Rightarrow> joined list" where
  "selectQuery d q = order_by_date_desc (filter (whereSql (whereClauses q)) (tx_from d))"

definition countQuery :: "db \<Rightarrow> tx_query \<Rightarrow> nat" where
  "countQuery d q = length (filter (whereSql (whereClauses q)) (tx_from d))"

text \<open>
  The page and the limit of a query, with the handler's defaults 1 and 15, and the offset
  \<^verbatim>\<open>(page - 1) * limit\<close>.
\<close>

definition page_of :: "tx_query \<Rightarrow> number" where
  "page_of q = (case q_page q of None \<Rightarrow> parseInt (Digits 1) | Some p \<Rightarrow> parseInt p)"

definition limit_of :: "tx_query \<Rightarrow> number" where
  "limit_of q = (case q_limit q of None \<Rightarrow> parseInt (Digits 15) | Some l \<Rightarrow> parseInt l)"

definition offset_of :: "tx_query \<Rightarrow> number" where
  "offset_of q = js_times (js_minus_one (page_of q)) (limit_of q)"

definition api_transactions :: "string \<Rightarrow> (int \<Rightarrow> int \<Rightarrow> int \<Rightarrow> string) \<Rightarrow> tx_query \<Rightarrow> db \<Rightarrow> response \<times> db" where
  "api_transactions meth cbs q d =
     (let page = page_of q;
          lmt = limit_of q;
          offset = offset_of q
      in case sql_int lmt of
           None \<Rightarrow> (Message 500 ''datatype mismatch'', d)
         | Some l \<Rightarrow>
             (case sql_int offset of
                None \<Rightarrow> (Message 500 ''datatype mismatch'', d)
              | Some off \<Rightarrow>
                  let rawTransactions = sql_limit_offset l off (selectQuery d q);
                      total' = countQuery d q
                  in (TransactionsPage (map (select_tx cbs) rawTransactions) total' page lmt, d)))"

section \<open>Profile summary\<close>

text \<open>
  The handler of \<^verbatim>\<open>/api/profile\<close>; \<open>userId\<close> is the number the parameter denotes,
  \<open>None\<close> when it is absent or empty. \<^verbatim>\<open>COUNT(*)\<close> always yields a row, so the
  handler's 404 branch is never taken. The handler never reads the request's method.
  The loop adds the values with JavaScript's \<^verbatim>\<open>+\<close>, from the number 0.
\<close>

definition userCoinsQuery :: "db \<Rightarrow> int \<Rightarrow> coin list" where
  "userCoinsQuery d uid =
     concat (map (\<lambda>c.
       map (\<lambda>t. c)
         (filter (\<lambda>t. coin_id c = tx_coin_id t
                    \<and> Some (tx_id t) = sql_max (map tx_id (filter (\<lambda>t2. tx_coin_id t2 = coin_id c) (transactions d)))
                    \<and> buyer_id t = uid)
            (transactions d)))
     (coins d))"

definition api_profile :: "string \<Rightarrow> int option \<Rightarrow> db \<Rightarrow> response \<times> db" where
  "api_profile meth userId d =
     (case userId of
        None \<Rightarrow> (Message 400 ''Missing userId parameter.'', d)
      | Some uid \<Rightarrow>
          let totalTransactions =
                length (filter (\<lambda>t. buyer_id t = uid \<or> seller_id t = Some uid) (transactions d));
              rows = userCoinsQuery d uid;
              totalBitSlow = length rows;
              totalValue = fold (\<lambda>coin totalValue. js_plus totalValue (coin_value coin)) rows (Finite 0)
          in (Profile totalTransactions totalBitSlow totalValue, d))"

section \<open>Listing coins\<close>

text \<open>
  The handler of \<^verbatim>\<open>/api/coins\<close>: the coins by ascending identifier, each with the name
  of the buyer of its transaction of latest date (the first inserted of several of that
  date), and the number of all coins. The handler never reads the request's method; a
  statement that fails on its limit or offset is answered with status 500.
\<close>

definition owner_name_of :: "db \<Rightarrow> coin \<Rightarrow> string option" where
  "owner_name_of d c =
     (case rev (sort_key (\<lambda>(t, b). transaction_date t)
            (rev (concat (map (\<lambda>t. map (\<lambda>b. (t, b)) (join_buyer (clients d) t))
               (filter (\<lambda>t. tx_coin_id t = coin_id c) (transactions d)))))) of
        [] \<Rightarrow> None
      | (t, b) # _ \<Rightarrow> Some (cl_name b))"

definition api_coins :: "string \<Rightarrow> (int \<Rightarrow> int \<Rightarrow> int \<Rightarrow> string) \<Rightarrow> parsed option \<Rightarrow> parsed option \<Rightarrow> db \<Rightarrow> response \<times> db" where
  "api_coins meth cbs page_param limit_param d =
     (let page = (case page_param of None \<Rightarrow> parseInt (Digits 1) | Some p \<Rightarrow> parseInt p);
          lmt = (case limit_param of None \<Rightarrow> parseInt (Digits 30) | Some l \<Rightarrow> parseInt l);
          offset = js_times (js_minus_one page) lmt
      in case sql_int lmt of
           None \<Rightarrow> (Message 500 ''Error fetching coins'', d)
         | Some l \<Rightarrow>
             (case sql_int offset of
                None \<Rightarrow> (Message 500 ''Error fetching coins'', d)
              | Some off \<Rightarrow>
                  let rows = sql_limit_offset l off (sort_key coin_id (coins d))
                  in (CoinsPage
                        (map (\<lambda>c. \<lparr>co_coin_id = coin_id c, co_value = coin_value c, co_bit1 = bit1 c,
                                    co_bit2 = bit2 c, co_bit3 = bit3 c, co_client_id = client_id c,
                                    co_owner_name = owner_name_of d c,
                                    co_computedBitSlow = cbs (bit1 c) (bit2 c) (bit3 c)\<rparr>) rows)
                        (length (coins d)) page lmt, d)))"

section \<open>Coin history\<close>

text \<open>
  The handler of \<^verbatim>\<open>/api/coin-history\<close>; the parameter is the number its text denotes,
  \<open>None\<close> when it is absent or empty.
\<close>

definition historyQuery :: "db \<Rightarrow> int \<Rightarrow> (transaction \<times> client option \<times> client) list" where
  "historyQuery d cid =
     sort_key (\<lambda>(t, s, b). transaction_date t)
       (filter (\<lambda>(t, s, b). tx_coin_id t = cid)
          (concat (map (\<lambda>t.
             concat (map (\<lambda>s. map (\<lambda>b. (t, s, b)) (join_buyer (clients d) t))
               (left_join_seller (clients d) t)))
           (transactions d))))"

definition select_history :: "transaction \<times> client option \<times> client \<Rightarrow> history_row" where
  "select_history row = (case row of (t, s, b) \<Rightarrow>
     \<lparr>h_id = tx_id t, h_coin_id = tx_coin_id t, h_transaction_date = transaction_date t,
      h_seller_name = map_option cl_name s, h_buyer_name = cl_name b\<rparr>)"

definition api_coin_history :: "string \<Rightarrow> int option \<Rightarrow> db \<Rightarrow> response \<times> db" where
  "api_coin_history meth coin_id_param d =
     (if meth \<noteq> ''GET'' then (Plain 405 ''Method Not Allowed'', d)
      else case coin_id_param of
        None \<Rightarrow> (Message 400 ''Missing coin_id parameter'', d)
      | Some cid \<Rightarrow> (History (map select_history (historyQuery d cid)), d))"

text \<open>
  The marketplace page's history modal shows one line for every entry of the response:
  the date as \<^verbatim>\<open>toLocaleString\<close> prints it, then seller, arrow and buyer.
\<close>

definition arrow :: string where
  "arrow = [CHR 0x20, CHR 0xE2, CHR 0x86, CHR 0x92, CHR 0x20]"

definition seller_label :: "history_row \<Rightarrow> string" where
  "seller_label entry =
     (case h_seller_name entry of
        None \<Rightarrow> ''Original Issuer'' @ arrow
      | Some n \<Rightarrow> if n = [] then ''Original Issuer'' @ arrow else n @ arrow)"

definition history_line :: "(string \<Rightarrow> string) \<Rightarrow> history_row \<Rightarrow> string" where
  "history_line toLocaleString entry =
     toLocaleString (h_transaction_date entry) @ '':'' @ '' '' @ seller_label entry @ h_buyer_name entry"

section \<open>Route dispatch\<close>

text \<open>
  \<^verbatim>\<open>routes[url.pathname]\<close> picks the handler by the path alone and hands it the request.
  A request to one of the eight API paths is its path together with the parameters and
  the body the handler of that path reads; the method is passed beside it. What the
  handlers take from the world outside the database is collected in the environment.
\<close>

datatype request =
    RegisterReq "register_body option"
  | TransactionsReq tx_query
  | LoginReq "(string \<times> string) option"
  | ProfileReq "int option"
  | CoinsReq "parsed option" "parsed option"
  | BuyReq "(int \<times> int option) option"
  | GenerateCoinReq "rat option"
  | CoinHistoryReq "int option"

record env =
  e_hash :: "string \<Rightarrow> string"
  e_compare :: "string \<Rightarrow> string \<Rightarrow> bool"
  e_now :: string
  e_rnd :: "nat \<Rightarrow> nat"
  e_computeBitSlow :: "int \<Rightarrow> int \<Rightarrow> int \<Rightarrow> string"

fun fetch :: "env \<Rightarrow> string \<Rightarrow> request \<Rightarrow> db \<Rightarrow> response \<times> db" where
  "fetch e meth (RegisterReq body) d = api_register meth (e_hash e) body d"
| "fetch e meth (TransactionsReq q) d = api_transactions meth (e_computeBitSlow e) q d"
| "fetch e meth (LoginReq body) d = api_login meth (e_compare e) body d"
| "fetch e meth (ProfileReq userId) d = api_profile meth userId d"
| "fetch e meth (CoinsReq page_param limit_param) d =
     api_coins meth (e_computeBitSlow e) page_param limit_param d"
| "fetch e meth (BuyReq body) d = api_buy meth (e_now e) body d"
| "fetch e meth (GenerateCoinReq body) d = api_generate_coin meth (e_rnd e) body d"
| "fetch e meth (CoinHistoryReq coin_id_param) d = api_coin_history meth coin_id_param d"

text \<open>The server answers one request after the other, each on the database the last left.\<close>

fun serve :: "(env \<times> string \<times> request) list \<Rightarrow> db \<Rightarrow> db" where
  "serve [] d = d"
| "serve ((e, meth, r) # rs) d = serve rs (snd (fetch e meth r d))"

text \<open>The verb each route is meant for: \<^verbatim>\<open>POST\<close> for the mutations and login, \<^verbatim>\<open>GET\<close> for the reads.\<close>

fun verb_of :: "request \<Rightarrow> string" where
  "verb_of (RegisterReq _) = ''POST''"
| "verb_of (LoginReq _) = ''POST''"
| "verb_of (BuyReq _) = ''POST''"
| "verb_of (GenerateCoinReq _) = ''POST''"
| "verb_of (TransactionsReq _) = ''GET''"
| "verb_of (ProfileReq _) = ''GET''"
| "verb_of (CoinsReq _ _) = ''GET''"
| "verb_of (CoinHistoryReq _) = ''GET''"

section \<open>Properties of a database state\<close>

text \<open>
  The most recent transaction of a coin is the one inserted last, the one with the
  greatest generated identifier among the coin's transactions (as \<^verbatim>\<open>/api/profile\<close>
  selects it with \<^verbatim>\<open>MAX(id)\<close>).
\<close>

definition latest_tx :: "transaction list \<Rightarrow> int \<Rightarrow> transaction option" where
  "latest_tx txs cid =
     find (\<lambda>t. tx_coin_id t = cid \<and> (\<forall>t' \<in> set txs. tx_coin_id t' = cid \<longrightarrow> tx_id t' \<le> tx_id t)) txs"

definition latest_buyer :: "transaction list \<Rightarrow> int \<Rightarrow> int option" where
  "latest_buyer txs cid = map_option buyer_id (latest_tx txs cid)"

text \<open>The ownership invariant of the spec.\<close>

definition owner_inv :: "db \<Rightarrow> bool" where
  "owner_inv d = (\<forall>c \<in> set (coins d). client_id c = latest_buyer (transactions d) (coin_id c))"

text \<open>Every transaction is a transaction of a coin of the table.\<close>

definition coin_refs :: "db \<Rightarrow> bool" where
  "coin_refs d = (\<forall>t \<in> set (transactions d). \<exists>c \<in> set (coins d). coin_id c = tx_coin_id t)"


text \<open>A request that is not a purchase whose body lacks the buyer.\<close>

definition names_buyer :: "request \<Rightarrow> bool" where
  "names_buyer r = (case r of BuyReq (Some (cid, None)) \<Rightarrow> False | _ \<Rightarrow> True)"

text \<open>The primary keys: no two rows of a table have the same identifier.\<close>

definition keys :: "db \<Rightarrow> bool" where
  "keys d = (distinct (map cl_id (clients d)) \<and> distinct (map coin_id (coins d))
             \<and> distinct (map tx_id (transactions d)))"

section \<open>Example states\<close>

definition alice :: client where
  "alice = \<lparr>cl_id = 1, cl_name = ''Alice'', cl_email = ''alice@example.org'',
            cl_password = ''h1'', cl_phone = None, cl_address = None\<rparr>"

definition bob :: client where
  "bob = \<lparr>cl_id = 7, cl_name = ''Bob'', cl_email = ''bob@example.org'',
          cl_password = ''h2'', cl_phone = None, cl_address = None\<rparr>"

definition coin1 :: coin where
  "coin1 = \<lparr>coin_id = 1, coin_value = 500, bit1 = 3, bit2 = 77, bit3 = 42, client_id = None\<rparr>"

definition db0 :: db where
  "db0 = \<lparr>clients = [alice, bob], coins = [coin1], transactions = []\<rparr>"

definition robert_body :: register_body where
  "robert_body = \<lparr>rb_name = ''Robert'', rb_email = ''bob@example.org'',
     rb_password = ''secret12'', rb_phone = None, rb_address = None\<rparr>"

definition carol_body :: register_body where
  "carol_body = \<lparr>rb_name = ''Carol'', rb_email = ''carol@example.org'',
     rb_password = ''secret12'', rb_phone = Some ''555-0100'', rb_address = None\<rparr>"

definition coin66 :: coin where
  "coin66 = \<lparr>coin_id = 1, coin_value = 10, bit1 = 6, bit2 = 6, bit3 = 6, client_id = None\<rparr>"

definition db_used :: db where
  "db_used = \<lparr>clients = [], coins = [coin66], transactions = []\<rparr>"


definition env0 :: env where
  "env0 = \<lparr>e_hash = (\<lambda>p. ''#'' @ p), e_compare = (\<lambda>p h. h = ''#'' @ p),
           e_now = ''2025-03-01T10:00:00.000Z'', e_rnd = (\<lambda>_. 5),
           e_computeBitSlow = (\<lambda>b1 b2 b3. ''hash'')\<rparr>"

definition session0 :: "(env \<times> string \<times> request) list" where
  "session0 =
     [(env0, ''POST'', GenerateCoinReq (Some 250)),
      (env0, ''POST'', BuyReq (Some (1, Some 7))),
      (env0, ''POST'', BuyReq (Some (2, Some 1))),
      (env0, ''POST'', BuyReq (Some (1, Some 1))),
      (env0, ''POST'', BuyReq (Some (1, Some 1))),
      (env0, ''GET'', BuyReq (Some (2, Some 7))),
      (env0, ''POST'', RegisterReq (Some carol_body)),
      (env0, ''GET'', ProfileReq (Some 1))]"


section \<open>The queries in terms of the tables\<close>

text \<open>
  The rows of a table with a given key: the client that sells, the client that buys and
  the coin of a transaction, \<open>None\<close> when the table has no row with that identifier.
\<close>

definition seller_of :: "db \<Rightarrow> transaction \<Rightarrow> client option" where
  "seller_of d t = (case seller_id t of None \<Rightarrow> None
                    | Some s \<Rightarrow> find (\<lambda>c. cl_id c = s) (clients d))"

definition buyer_of :: "db \<Rightarrow> transaction \<Rightarrow> client option" where
  "buyer_of d t = find (\<lambda>c. cl_id c = buyer_id t) (clients d)"





text \<open>An entry of a coin's history, with the names looked up.\<close>

definition history_entry :: "db \<Rightarrow> transaction \<Rightarrow> history_row" where
  "history_entry d t =
     \<lparr>h_id = tx_id t, h_coin_id = tx_coin_id t, h_transaction_date = transaction_date t,
      h_seller_name = map_option cl_name (seller_of d t),
      h_buyer_name = (case buyer_of d t of None \<Rightarrow> [] | Some b \<Rightarrow> cl_name b)\<rparr>"


fun tx_total :: "response \<Rightarrow> nat" where
  "tx_total (TransactionsPage _ n _ _) = n"
| "tx_total _ = 0"

fun history_rows :: "response \<Rightarrow> history_row list" where
  "history_rows (History rows) = rows"
| "history_rows _ = []"

section \<open>An example ledger\<close>

definition coin2 :: coin where
  "coin2 = \<lparr>coin_id = 2, coin_value = 250, bit1 = 6, bit2 = 6, bit3 = 6, client_id = Some 1\<rparr>"

definition tx1 :: transaction where
  "tx1 = \<lparr>tx_id = 1, tx_coin_id = 1, amount = 500, transaction_date = ''2025-03-01T10:00:00.000Z'',
          seller_id = None, buyer_id = 7\<rparr>"

definition tx2 :: transaction where
  "tx2 = \<lparr>tx_id = 2, tx_coin_id = 2, amount = 250, transaction_date = ''2025-03-02T09:30:00.000Z'',
          seller_id = None, buyer_id = 1\<rparr>"

definition tx3 :: transaction where
  "tx3 = \<lparr>tx_id = 3, tx_coin_id = 1, amount = 500, transaction_date = ''2025-03-03T12:00:00.000Z'',
          seller_id = Some 7, buyer_id = 1\<rparr>"

definition ledger :: db where
  "ledger = \<lparr>clients = [alice, bob], coins = [coin1\<lparr>client_id := Some 1\<rparr>, coin2],
             transactions = [tx1, tx2, tx3]\<rparr>"

text \<open>The ledger after client 1's coin 2 is bought with a \<^verbatim>\<open>buyer_id\<close> that no client has.\<close>

definition orphan_ledger :: db where
  "orphan_ledger = snd (api_buy ''POST'' ''2025-03-04T08:00:00.000Z'' (Some (2, Some 999)) ledger)"

definition no_filter :: tx_query where
  "no_filter = \<lparr>q_page = None, q_limit = None, startDate = None, endDate = None,
                minValue = None, maxValue = None, buyerName = None, sellerName = None\<rparr>"





section \<open>Generated keys are fresh\<close>

lemma fold_max_ge_init: "(a::int) \<le> fold max ys a"
proof (induction ys arbitrary: a)
  case Nil show ?case by simp
next
  case (Cons z zs)
  have "a \<le> max z a" by simp
  also have "\<dots> \<le> fold max zs (max z a)" by (rule Cons.IH)
  finally show ?case by simp
qed

lemma fold_max_ge_elem: "(x::int) \<in> set ys \<Longrightarrow> x \<le> fold max ys a"
proof (induction ys arbitrary: a)
  case Nil then show ?case by simp
next
  case (Cons y ys)
  show ?case
  proof (cases "x = y")
    case True
    have "x \<le> max y a" using True by simp
    also have "\<dots> \<le> fold max ys (max y a)" by (rule fold_max_ge_init)
    finally show ?thesis by simp
  next
    case False
    then have "x \<in> set ys" using Cons.prems by simp
    then show ?thesis using Cons.IH by simp
  qed
qed

lemma next_id_gt: "x \<in> set ids \<Longrightarrow> x < next_id ids"
  using fold_max_ge_elem[of x ids 0] by (simp add: next_id_def)

lemma next_id_fresh: "next_id ids \<notin> set ids"
  using next_id_gt[of "next_id ids" ids] by auto


section \<open>Buying a coin: what the handler does\<close>

lemma api_buy_wrong_method:
  "meth \<noteq> ''POST'' \<Longrightarrow> api_buy meth now body d = (Plain 405 ''Method Not Allowed'', d)"
  by (simp add: api_buy_def)

lemma api_buy_not_found:
  "find (\<lambda>c. coin_id c = cid) (coins d) = None \<Longrightarrow>
   api_buy ''POST'' now (Some (cid, bid)) d = (Message 404 ''Coin not found'', d)"
  by (simp add: api_buy_def)

lemma api_buy_conflict:
  "find (\<lambda>c. coin_id c = cid) (coins d) = Some c \<Longrightarrow> client_id c = Some bid \<Longrightarrow> bid \<noteq> 0 \<Longrightarrow>
   api_buy ''POST'' now (Some (cid, Some bid)) d = (Message 400 ''This coin is already yours'', d)"
  by (simp add: api_buy_def truthy_num_def)

lemma api_buy_success:
  assumes "find (\<lambda>c. coin_id c = cid) (coins d) = Some c"
    and "\<not> (truthy_num (client_id c) \<and> client_id c = Some bid)"
  shows "api_buy ''POST'' now (Some (cid, Some bid)) d =
    (Message 200 ''Coin purchased successfully'',
     d\<lparr>coins := map (\<lambda>c'. if coin_id c' = cid then c'\<lparr>client_id := Some bid\<rparr> else c') (coins d),
       transactions := transactions d @
         [\<lparr>tx_id = next_id (map tx_id (transactions d)), tx_coin_id = cid, amount = coin_value c,
           transaction_date = now,
           seller_id = (if truthy_num (client_id c) then client_id c else None),
           buyer_id = bid\<rparr>]\<rparr>)"
  using assms by (simp add: api_buy_def Let_def)

lemma api_buy_no_buyer:
  assumes "find (\<lambda>c. coin_id c = cid) (coins d) = Some c"
  shows "api_buy ''POST'' now (Some (cid, None)) d =
    (Message 500 ''Error buying coin'',
     d\<lparr>coins := map (\<lambda>c'. if coin_id c' = cid then c'\<lparr>client_id := None\<rparr> else c') (coins d)\<rparr>)"
  using assms by (simp add: api_buy_def Let_def truthy_num_def split: option.splits)

lemma set_owner_coin_ids:
  "map coin_id (map (\<lambda>c'. if coin_id c' = cid then c'\<lparr>client_id := v\<rparr> else c') cs) = map coin_id cs"
  by (induction cs) simp_all

lemma set_owner_owned:
  "list_all (\<lambda>c'. coin_id c' = cid \<longrightarrow> client_id c' = v)
     (map (\<lambda>c'. if coin_id c' = cid then c'\<lparr>client_id := v\<rparr> else c') cs)"
  by (induction cs) simp_all

text \<open>
  C10. The handler never looks the buyer up in \<^verbatim>\<open>clients\<close>: whenever the coin exists and
  its current owner is not the given \<^verbatim>\<open>buyer_id\<close>, the purchase succeeds with status 200
  for any \<^verbatim>\<open>buyer_id\<close> whatever, every coin of that identifier is then owned by
  \<^verbatim>\<open>buyer_id\<close>, exactly one transaction with this coin and this \<^verbatim>\<open>buyer_id\<close> is appended,
  and the table of clients is as before. The witness buys with a \<^verbatim>\<open>buyer_id\<close> that no
  client has.
\<close>

theorem buy_any_buyer:
  assumes "find (\<lambda>c. coin_id c = cid) (coins d) = Some c" and "client_id c \<noteq> Some bid"
  shows "case api_buy ''POST'' now (Some (cid, Some bid)) d of (r, d') \<Rightarrow>
           r = Message 200 ''Coin purchased successfully'' \<and> status r = 200
         \<and> (\<forall>c' \<in> set (coins d'). coin_id c' = cid \<longrightarrow> client_id c' = Some bid)
         \<and> map coin_id (coins d') = map coin_id (coins d)
         \<and> (\<exists>t. transactions d' = transactions d @ [t] \<and> tx_coin_id t = cid \<and> buyer_id t = bid)
         \<and> clients d' = clients d"
proof -
  have ne: "\<not> (truthy_num (client_id c) \<and> client_id c = Some bid)" using assms(2) by simp
  define t where "t = \<lparr>tx_id = next_id (map tx_id (transactions d)), tx_coin_id = cid,
      amount = coin_value c, transaction_date = now,
      seller_id = (if truthy_num (client_id c) then client_id c else None), buyer_id = bid\<rparr>"
  define cs' where "cs' = map (\<lambda>c'. if coin_id c' = cid then c'\<lparr>client_id := Some bid\<rparr> else c') (coins d)"
  define d' where "d' = d\<lparr>coins := cs', transactions := transactions d @ [t]\<rparr>"
  have eq: "api_buy ''POST'' now (Some (cid, Some bid)) d = (Message 200 ''Coin purchased successfully'', d')"
    unfolding d'_def cs'_def t_def by (rule api_buy_success[OF assms(1) ne])
  have 1: "\<forall>c' \<in> set (coins d'). coin_id c' = cid \<longrightarrow> client_id c' = Some bid"
  proof -
    have "coins d' = cs'" by (simp add: d'_def)
    moreover have "list_all (\<lambda>c'. coin_id c' = cid \<longrightarrow> client_id c' = Some bid) cs'"
      unfolding cs'_def by (rule set_owner_owned)
    ultimately show ?thesis by (simp only: list_all_iff)
  qed
  have 2: "map coin_id (coins d') = map coin_id (coins d)"
    by (simp add: d'_def cs'_def set_owner_coin_ids)
  have 3: "transactions d' = transactions d @ [t] \<and> tx_coin_id t = cid \<and> buyer_id t = bid"
    by (simp add: d'_def t_def)
  have 4: "clients d' = clients d" by (simp add: d'_def)
  from 3 have 5: "\<exists>t. transactions d' = transactions d @ [t] \<and> tx_coin_id t = cid \<and> buyer_id t = bid"
    by (rule exI)
  show ?thesis unfolding eq using 1 2 4 5 by simp
qed

theorem buy_any_buyer_witness:
  "find (\<lambda>c. coin_id c = 1) (coins db0) = Some coin1 \<and> client_id coin1 \<noteq> Some 999
   \<and> 999 \<notin> set (map cl_id (clients db0))
   \<and> (case api_buy ''POST'' ''2025-03-01T10:00:00.000Z'' (Some (1, Some 999)) db0 of (r, d') \<Rightarrow>
           r = Message 200 ''Coin purchased successfully'' \<and> status r = 200
         \<and> (\<forall>c' \<in> set (coins d'). coin_id c' = 1 \<longrightarrow> client_id c' = Some 999)
         \<and> map coin_id (coins d') = map coin_id (coins db0)
         \<and> (\<exists>t. transactions d' = transactions db0 @ [t] \<and> tx_coin_id t = 1 \<and> buyer_id t = 999)
         \<and> clients d' = clients db0)"
proof -
  have 1: "find (\<lambda>c. coin_id c = 1) (coins db0) = Some coin1" by code_simp
  have 2: "client_id coin1 \<noteq> Some 999" by code_simp
  have 3: "999 \<notin> set (map cl_id (clients db0))" by code_simp
  show ?thesis
    using 1 2 3 buy_any_buyer[OF 1 2, of "''2025-03-01T10:00:00.000Z''"] by blast
qed

text \<open>
  C1, at the input where the code departs from it. A coin whose owner is the number 0 is
  owned, and a buyer 0 who buys it again is its owner: the claim asks for Conflict (400)
  and no new transaction. The handler tests the owner for truthiness, so owner 0 counts
  as no owner: the first purchase of the unowned coin 1 by buyer 0 makes 0 the owner, the
  second purchase by the same buyer is answered with status 200 again, and a second
  transaction is appended, with a null seller.
\<close>

theorem buy_twice_by_zero:
  "case api_buy ''POST'' ''2025-03-01T10:00:00.000Z'' (Some (1, Some 0)) db0 of (r1, d1) \<Rightarrow>
     case api_buy ''POST'' ''2025-03-01T10:00:05.000Z'' (Some (1, Some 0)) d1 of (r2, d2) \<Rightarrow>
       status r1 = 200 \<and> map client_id (coins d1) = [Some 0] \<and> length (transactions d1) = 1
     \<and> status r2 = 200 \<and> length (transactions d2) = 2
     \<and> map seller_id (transactions d2) = [None, None]
     \<and> map buyer_id (transactions d2) = [0, 0]"
  by code_simp


section \<open>Registration\<close>

lemma find_None_iff_no_email:
  "(find (\<lambda>c. cl_email c = em) cs = None) = (\<not> (\<exists>c \<in> set cs. cl_email c = em))"
  by (auto simp: find_None_iff)

text \<open>
  C8. A register request (method \<^verbatim>\<open>POST\<close>, body parsed): when a client with the given
  email exists, the answer is status 400 and the database, so the table of clients, is
  unchanged; otherwise the answer is status 201 and exactly one client is appended, with
  a generated identifier, the given fields, and the hash of the given password as its
  password.
\<close>

theorem register_conflict_or_created:
  "api_register ''POST'' hash (Some b) d =
     (if \<exists>c \<in> set (clients d). cl_email c = rb_email b
      then (Message 400 ''Email already exists.'', d)
      else (Message 201 ''Registration successful.'',
            d\<lparr>clients := clients d @
                [\<lparr>cl_id = next_id (map cl_id (clients d)), cl_name = rb_name b,
                  cl_email = rb_email b, cl_password = hash (rb_password b),
                  cl_phone = rb_phone b, cl_address = rb_address b\<rparr>]\<rparr>))"
proof (cases "find (\<lambda>c. cl_email c = rb_email b) (clients d)")
  case None
  then have "\<not> (\<exists>c \<in> set (clients d). cl_email c = rb_email b)"
    using find_None_iff_no_email[of "rb_email b" "clients d"] by blast
  with None show ?thesis by (simp add: api_register_def)
next
  case (Some u)
  then have "\<exists>c \<in> set (clients d). cl_email c = rb_email b"
    using find_None_iff_no_email[of "rb_email b" "clients d"] by simp
  with Some show ?thesis by (simp add: api_register_def)
qed

theorem register_conflict_or_created_witness:
  "api_register ''POST'' (\<lambda>p. ''#'' @ p) (Some robert_body) db0
       = (Message 400 ''Email already exists.'', db0)
   \<and> api_register ''POST'' (\<lambda>p. ''#'' @ p) (Some carol_body) db0
       = (Message 201 ''Registration successful.'',
          db0\<lparr>clients := clients db0 @
             [\<lparr>cl_id = next_id (map cl_id (clients db0)), cl_name = rb_name carol_body,
               cl_email = rb_email carol_body, cl_password = ''#'' @ rb_password carol_body,
               cl_phone = rb_phone carol_body, cl_address = rb_address carol_body\<rparr>]\<rparr>)
   \<and> next_id (map cl_id (clients db0)) = 8"
proof -
  have 1: "\<exists>c \<in> set (clients db0). cl_email c = rb_email robert_body" by code_simp
  have 2: "\<not> (\<exists>c \<in> set (clients db0). cl_email c = rb_email carol_body)" by code_simp
  have 3: "next_id (map cl_id (clients db0)) = 8" by code_simp
  note a = trans[OF register_conflict_or_created[of "\<lambda>p. ''#'' @ p" robert_body db0] if_P[OF 1]]
  note b = trans[OF register_conflict_or_created[of "\<lambda>p. ''#'' @ p" carol_body db0] if_not_P[OF 2]]
  show ?thesis by (intro conjI a b 3)
qed


section \<open>Methods\<close>


lemma wrong_verb_refused:
  assumes "meth \<noteq> verb_of r"
    and "case r of TransactionsReq _ \<Rightarrow> False | ProfileReq _ \<Rightarrow> False | CoinsReq _ _ \<Rightarrow> False | _ \<Rightarrow> True"
  shows "fetch e meth r d = (Plain 405 ''Method Not Allowed'', d)"
  using assms
  by (cases r) (simp_all add: api_register_def api_login_def api_buy_def api_generate_coin_def
      api_coin_history_def)

text \<open>
  C9, at an input where the code departs from it. The handler of \<^verbatim>\<open>/api/transactions\<close>
  has no method check (nor have those of \<^verbatim>\<open>/api/profile\<close> and \<^verbatim>\<open>/api/coins\<close>): a
  \<^verbatim>\<open>POST\<close> to this read endpoint is answered like a \<^verbatim>\<open>GET\<close>, never with 405: with
  status 200 and the page of transactions exactly when SQLite reads the limit and the
  offset of the request, as it does when the request has no parameters. The other
  five routes refuse a wrong verb (\<open>wrong_verb_refused\<close>).
\<close>

theorem post_to_transactions_is_served:
  "fetch e ''POST'' (TransactionsReq q) d = fetch e ''GET'' (TransactionsReq q) d
   \<and> status (fst (fetch e ''POST'' (TransactionsReq q) d)) \<noteq> 405
   \<and> (status (fst (fetch e ''POST'' (TransactionsReq q) d)) = 200)
       = (sql_int (limit_of q) \<noteq> None \<and> sql_int (offset_of q) \<noteq> None)
   \<and> status (fst (fetch e ''POST'' (TransactionsReq no_filter) d)) = 200
   \<and> tx_total (fst (fetch e ''POST'' (TransactionsReq no_filter) d)) = countQuery d no_filter
   \<and> ''POST'' \<noteq> verb_of (TransactionsReq q)"
proof -
  have 1: "status (fst (api_transactions ''POST'' (e_computeBitSlow e) q d)) \<noteq> 405"
    by (simp add: api_transactions_def Let_def split: option.splits)
  have l: "sql_int (limit_of no_filter) = Some 15" by code_simp
  have o: "sql_int (offset_of no_filter) = Some 0" by code_simp
  have 2: "status (fst (api_transactions ''POST'' (e_computeBitSlow e) no_filter d)) = 200"
    by (simp add: api_transactions_def Let_def l o)
  have 3: "tx_total (fst (api_transactions ''POST'' (e_computeBitSlow e) no_filter d)) = countQuery d no_filter"
    by (simp add: api_transactions_def Let_def l o)
  have 0: "api_transactions ''POST'' (e_computeBitSlow e) q d = api_transactions ''GET'' (e_computeBitSlow e) q d"
    by (simp add: api_transactions_def)
  have 4: "(status (fst (api_transactions ''POST'' (e_computeBitSlow e) q d)) = 200)
       = (sql_int (limit_of q) \<noteq> None \<and> sql_int (offset_of q) \<noteq> None)"
    by (simp add: api_transactions_def Let_def split: option.splits)
  show ?thesis using 0 1 2 3 4 by simp
qed

lemma reads_ignore_the_method:
  "fetch e meth (TransactionsReq q) d = fetch e ''GET'' (TransactionsReq q) d"
  "fetch e meth (ProfileReq u) d = fetch e ''GET'' (ProfileReq u) d"
  "fetch e meth (CoinsReq p l) d = fetch e ''GET'' (CoinsReq p l) d"
  by (simp_all add: api_transactions_def api_profile_def api_coins_def)


section \<open>Generating a coin: the retry loop\<close>

lemma isUsed_iff: "isUsed used b1 b2 b3 = ((b1, b2, b3) \<in> set used)"
  by (auto simp: isUsed_def list_ex_iff)

lemma draw_loop_step:
  "draw_loop rnd used a =
     (if a + 1 > 10000 then (a + 1, draw rnd a)
      else if draw rnd a \<in> set used then draw_loop rnd used (a + 1)
      else (a + 1, draw rnd a))"
  by (subst draw_loop.simps) (auto simp: isUsed_iff split: prod.splits)

lemma draw_loop_all_used:
  "a \<le> 10000 \<Longrightarrow> (\<forall>k. a \<le> k \<and> k < 10000 \<longrightarrow> draw rnd k \<in> set used) \<Longrightarrow>
   fst (draw_loop rnd used a) = 10001"
proof (induction n \<equiv> "10000 - a" arbitrary: a)
  case 0
  then have "a = 10000" by simp
  then show ?case by (subst draw_loop_step) simp
next
  case (Suc n)
  then have lt: "a < 10000" by simp
  with Suc.prems have u: "draw rnd a \<in> set used" by simp
  have "fst (draw_loop rnd used (a + 1)) = 10001"
  proof (rule Suc.hyps(1))
    show "n = 10000 - (a + 1)" using Suc.hyps(2) by simp
    show "a + 1 \<le> 10000" using lt by simp
    show "\<forall>k. a + 1 \<le> k \<and> k < 10000 \<longrightarrow> draw rnd k \<in> set used" using Suc.prems(2) by simp
  qed
  then show ?case using lt u by (subst draw_loop_step) simp
qed

lemma draw_loop_first_unused:
  "a \<le> j \<Longrightarrow> j < 10000 \<Longrightarrow> draw rnd j \<notin> set used \<Longrightarrow>
   (\<forall>k. a \<le> k \<and> k < j \<longrightarrow> draw rnd k \<in> set used) \<Longrightarrow>
   draw_loop rnd used a = (j + 1, draw rnd j)"
proof (induction n \<equiv> "j - a" arbitrary: a)
  case 0
  then have "a = j" by simp
  then show ?case using 0 by (subst draw_loop_step) simp
next
  case (Suc n)
  then have lt: "a < j" by simp
  with Suc.prems have u: "draw rnd a \<in> set used" by simp
  have "draw_loop rnd used (a + 1) = (j + 1, draw rnd j)"
  proof (rule Suc.hyps(1))
    show "n = j - (a + 1)" using Suc.hyps(2) by simp
    show "a + 1 \<le> j" using lt by simp
    show "j < 10000" by (rule Suc.prems(2))
    show "draw rnd j \<notin> set used" by (rule Suc.prems(3))
    show "\<forall>k. a + 1 \<le> k \<and> k < j \<longrightarrow> draw rnd k \<in> set used" using Suc.prems(4) by simp
  qed
  then show ?case using lt u Suc.prems(2) by (subst draw_loop_step) simp
qed

lemma draw_range:
  assumes "\<forall>i. rnd i < 100" and "draw rnd k = (b1, b2, b3)"
  shows "1 \<le> b1 \<and> b1 \<le> 100 \<and> 1 \<le> b2 \<and> b2 \<le> 100 \<and> 1 \<le> b3 \<and> b3 \<le> 100"
proof -
  have "rnd (3 * k) < 100" "rnd (3 * k + 1) < 100" "rnd (3 * k + 2) < 100"
    using assms(1) by blast+
  then show ?thesis using assms(2) by (auto simp: draw_def)
qed

text \<open>
  C3. A generate-coin request (method \<^verbatim>\<open>POST\<close>, body parsed), with \<^verbatim>\<open>Math.random()\<close> in
  its documented range, so that every \<^verbatim>\<open>Math.floor(Math.random() * 100)\<close> is below 100.
  When the first 10,000 triples drawn are all in the coins table, the budget is exhausted:
  the answer is status 400, ``No unique combinations remaining'', and the database is
  unchanged. Otherwise the answer is status 201 and exactly one coin is appended and
  nothing else changes: its triple is none of the triples of the table at the start of
  the call, each component lies in 1..100, it has no owner, its value is the given amount
  and its identifier is new; no transaction is inserted.
\<close>

theorem generate_coin_unique_or_exhausted:
  assumes "\<forall>i. rnd i < 100"
  shows "case api_generate_coin ''POST'' rnd (Some amt) d of (r, d') \<Rightarrow>
     (if \<forall>k<10000. draw rnd k \<in> set (map (\<lambda>c. (bit1 c, bit2 c, bit3 c)) (coins d))
      then r = Message 400 ''No unique combinations remaining'' \<and> d' = d
      else r = Message 201 ''Coin generated successfully''
         \<and> (\<exists>c. d' = d\<lparr>coins := coins d @ [c]\<rparr>
              \<and> (bit1 c, bit2 c, bit3 c) \<notin> set (map (\<lambda>c. (bit1 c, bit2 c, bit3 c)) (coins d))
              \<and> 1 \<le> bit1 c \<and> bit1 c \<le> 100 \<and> 1 \<le> bit2 c \<and> bit2 c \<le> 100
              \<and> 1 \<le> bit3 c \<and> bit3 c \<le> 100
              \<and> client_id c = None \<and> coin_value c = amt
              \<and> coin_id c \<notin> set (map coin_id (coins d))))"
proof -
  let ?used = "map (\<lambda>c. (bit1 c, bit2 c, bit3 c)) (coins d)"
  show ?thesis
  proof (cases "\<forall>k<10000. draw rnd k \<in> set ?used")
    case True
    then have "fst (draw_loop rnd ?used 0) = 10001"
      by (intro draw_loop_all_used) simp_all
    then obtain b1 b2 b3 where "draw_loop rnd ?used 0 = (10001, b1, b2, b3)"
      by (cases "draw_loop rnd ?used 0") auto
    then have "api_generate_coin ''POST'' rnd (Some amt) d
        = (Message 400 ''No unique combinations remaining'', d)"
      by (simp add: api_generate_coin_def)
    with True show ?thesis by simp
  next
    case False
    then have ex: "\<exists>j. j < 10000 \<and> draw rnd j \<notin> set ?used" by blast
    define j where "j = (LEAST j. j < 10000 \<and> draw rnd j \<notin> set ?used)"
    have j: "j < 10000 \<and> draw rnd j \<notin> set ?used"
      unfolding j_def using ex by (rule LeastI_ex)
    have least: "\<forall>k. 0 \<le> k \<and> k < j \<longrightarrow> draw rnd k \<in> set ?used"
    proof (intro allI impI)
      fix k assume k: "0 \<le> k \<and> k < j"
      show "draw rnd k \<in> set ?used"
      proof (rule ccontr)
        assume "draw rnd k \<notin> set ?used"
        with k j have "k < 10000 \<and> draw rnd k \<notin> set ?used" by simp
        then have "j \<le> k" unfolding j_def by (rule Least_le)
        with k show False by simp
      qed
    qed
    obtain b1 b2 b3 where b: "draw rnd j = (b1, b2, b3)" by (cases "draw rnd j") auto
    have loop: "draw_loop rnd ?used 0 = (j + 1, b1, b2, b3)"
      using draw_loop_first_unused[of 0 j rnd ?used] j least b by simp
    define c where "c = \<lparr>coin_id = next_id (map coin_id (coins d)), coin_value = amt,
        bit1 = b1, bit2 = b2, bit3 = b3, client_id = None\<rparr>"
    have res: "api_generate_coin ''POST'' rnd (Some amt) d
        = (Message 201 ''Coin generated successfully'', d\<lparr>coins := coins d @ [c]\<rparr>)"
      using j by (simp add: api_generate_coin_def loop c_def)
    have rng: "1 \<le> b1 \<and> b1 \<le> 100 \<and> 1 \<le> b2 \<and> b2 \<le> 100 \<and> 1 \<le> b3 \<and> b3 \<le> 100"
      using assms b by (rule draw_range)
    have fresh: "coin_id c \<notin> set (map coin_id (coins d))"
      by (simp add: c_def next_id_fresh del: set_map)
    have uniq: "(bit1 c, bit2 c, bit3 c) \<notin> set ?used"
      using j b by (simp add: c_def del: set_map)
    have props: "(bit1 c, bit2 c, bit3 c) \<notin> set ?used
              \<and> 1 \<le> bit1 c \<and> bit1 c \<le> 100 \<and> 1 \<le> bit2 c \<and> bit2 c \<le> 100
              \<and> 1 \<le> bit3 c \<and> bit3 c \<le> 100
              \<and> client_id c = None \<and> coin_value c = amt
              \<and> coin_id c \<notin> set (map coin_id (coins d))"
      using rng fresh uniq by (simp add: c_def del: set_map)
    have "\<exists>c'. d\<lparr>coins := coins d @ [c]\<rparr> = d\<lparr>coins := coins d @ [c']\<rparr>
              \<and> (bit1 c', bit2 c', bit3 c') \<notin> set ?used
              \<and> 1 \<le> bit1 c' \<and> bit1 c' \<le> 100 \<and> 1 \<le> bit2 c' \<and> bit2 c' \<le> 100
              \<and> 1 \<le> bit3 c' \<and> bit3 c' \<le> 100
              \<and> client_id c' = None \<and> coin_value c' = amt
              \<and> coin_id c' \<notin> set (map coin_id (coins d))"
      using props by blast
    with False show ?thesis unfolding res by (simp del: set_map)
  qed
qed


theorem generate_coin_unique_or_exhausted_witness:
  "(\<forall>i. (\<lambda>_. 5::nat) i < 100)
   \<and> \<not> (\<forall>k<10000. draw (\<lambda>_. 5) k \<in> set (map (\<lambda>c. (bit1 c, bit2 c, bit3 c)) (coins db0)))
   \<and> api_generate_coin ''POST'' (\<lambda>_. 5) (Some 250) db0
       = (Message 201 ''Coin generated successfully'',
          db0\<lparr>coins := [coin1, \<lparr>coin_id = 2, coin_value = 250, bit1 = 6, bit2 = 6, bit3 = 6,
                                  client_id = None\<rparr>]\<rparr>)
   \<and> \<not> (\<exists>k<10000. draw (\<lambda>_. 5) k \<notin> set (map (\<lambda>c. (bit1 c, bit2 c, bit3 c)) (coins db_used)))
   \<and> api_generate_coin ''POST'' (\<lambda>_. 5) (Some 250) db_used
       = (Message 400 ''No unique combinations remaining'', db_used)"
proof -
  have h: "\<forall>i. (\<lambda>_. 5::nat) i < 100" by simp
  have all_used: "\<forall>k<10000. draw (\<lambda>_. 5) k \<in> set (map (\<lambda>c. (bit1 c, bit2 c, bit3 c)) (coins db_used))"
    by (simp add: draw_def db_used_def coin66_def)
  have some_free: "\<not> (\<forall>k<10000. draw (\<lambda>_. 5) k \<in> set (map (\<lambda>c. (bit1 c, bit2 c, bit3 c)) (coins db0)))"
    by (simp add: draw_def db0_def coin1_def) (rule exI[of _ 0], simp)
  have ok: "api_generate_coin ''POST'' (\<lambda>_. 5) (Some 250) db0
       = (Message 201 ''Coin generated successfully'',
          db0\<lparr>coins := [coin1, \<lparr>coin_id = 2, coin_value = 250, bit1 = 6, bit2 = 6, bit3 = 6,
                                  client_id = None\<rparr>]\<rparr>)"
    by code_simp
  obtain r d' where rd: "api_generate_coin ''POST'' (\<lambda>_. 5) (Some 250) db_used = (r, d')"
    by (cases "api_generate_coin ''POST'' (\<lambda>_. 5) (Some 250) db_used") blast
  have "r = Message 400 ''No unique combinations remaining'' \<and> d' = db_used"
    using generate_coin_unique_or_exhausted[where rnd="\<lambda>_. 5" and amt=250 and d=db_used, OF h]
      all_used
    unfolding rd by simp
  with rd have exhausted: "api_generate_coin ''POST'' (\<lambda>_. 5) (Some 250) db_used
       = (Message 400 ''No unique combinations remaining'', db_used)"
    by simp
  have none_free: "\<not> (\<exists>k<10000. draw (\<lambda>_. 5) k \<notin> set (map (\<lambda>c. (bit1 c, bit2 c, bit3 c)) (coins db_used)))"
    using all_used by blast
  show ?thesis by (intro conjI h some_free ok none_free exhausted)
qed



section \<open>The ownership invariant\<close>

lemma find_append:
  "find P (xs @ ys) = (case find P xs of None \<Rightarrow> find P ys | Some x \<Rightarrow> Some x)"
  by (induction xs) auto

lemma latest_tx_append_same:
  assumes "\<forall>t \<in> set txs. tx_id t < tx_id new" and "tx_coin_id new = cid"
  shows "latest_tx (txs @ [new]) cid = Some new"
proof -
  let ?P = "\<lambda>t. tx_coin_id t = cid \<and> (\<forall>t' \<in> set (txs @ [new]). tx_coin_id t' = cid \<longrightarrow> tx_id t' \<le> tx_id t)"
  have "\<forall>t \<in> set txs. \<not> ?P t"
  proof
    fix t assume "t \<in> set txs"
    then have "tx_id t < tx_id new" using assms(1) by blast
    then have "\<not> (tx_coin_id new = cid \<longrightarrow> tx_id new \<le> tx_id t)" using assms(2) by simp
    then show "\<not> ?P t" by auto
  qed
  then have none: "find ?P txs = None" by (simp only: find_None_iff) blast
  have "?P new" using assms by (auto intro: less_imp_le)
  then have "find ?P [new] = Some new" by simp
  then show ?thesis unfolding latest_tx_def find_append none by simp
qed

lemma latest_tx_append_other:
  assumes "tx_coin_id new \<noteq> cid"
  shows "latest_tx (txs @ [new]) cid = latest_tx txs cid"
proof -
  let ?P = "\<lambda>t. tx_coin_id t = cid \<and> (\<forall>t' \<in> set (txs @ [new]). tx_coin_id t' = cid \<longrightarrow> tx_id t' \<le> tx_id t)"
  let ?Q = "\<lambda>t. tx_coin_id t = cid \<and> (\<forall>t' \<in> set txs. tx_coin_id t' = cid \<longrightarrow> tx_id t' \<le> tx_id t)"
  have pq: "?P = ?Q" using assms by auto
  have "find ?P [new] = None" using assms by simp
  then have "find ?P (txs @ [new]) = find ?P txs"
    unfolding find_append by (simp split: option.splits)
  then show ?thesis unfolding latest_tx_def pq .
qed

lemma latest_tx_no_transaction:
  assumes "\<forall>t \<in> set txs. tx_coin_id t \<noteq> cid"
  shows "latest_tx txs cid = None"
  unfolding latest_tx_def find_None_iff using assms by blast

lemma api_buy_cases:
  assumes "api_buy meth now body d = (r, d')"
  shows "d' = d
    \<or> (\<exists>cid. body = Some (cid, None)
          \<and> d' = d\<lparr>coins := map (\<lambda>c'. if coin_id c' = cid then c'\<lparr>client_id := None\<rparr> else c') (coins d)\<rparr>)
    \<or> (\<exists>cid bid c t. find (\<lambda>c. coin_id c = cid) (coins d) = Some c
      \<and> tx_coin_id t = cid \<and> buyer_id t = bid \<and> tx_id t = next_id (map tx_id (transactions d))
      \<and> d' = d\<lparr>coins := map (\<lambda>c'. if coin_id c' = cid then c'\<lparr>client_id := Some bid\<rparr> else c') (coins d),
               transactions := transactions d @ [t]\<rparr>)"
proof (cases "meth = ''POST''")
  case False
  with assms show ?thesis by (simp add: api_buy_def)
next
  case post: True
  show ?thesis
  proof (cases body)
    case None
    with assms post show ?thesis by (simp add: api_buy_def)
  next
    case (Some b)
    obtain cid buyer where b: "b = (cid, buyer)" by (cases b) blast
    show ?thesis
    proof (cases "find (\<lambda>c. coin_id c = cid) (coins d)")
      case None
      from api_buy_not_found[OF None, of now buyer] assms post Some b have "d' = d" by simp
      then show ?thesis by (rule disjI1)
    next
      case found: (Some c)
      show ?thesis
      proof (cases buyer)
        case no_buyer: None
        from api_buy_no_buyer[OF found, of now] assms post Some b no_buyer
        have "d' = d\<lparr>coins := map (\<lambda>c'. if coin_id c' = cid then c'\<lparr>client_id := None\<rparr> else c') (coins d)\<rparr>"
          by simp
        with Some b no_buyer show ?thesis by blast
      next
        case buyer: (Some bid)
        show ?thesis
        proof (cases "truthy_num (client_id c) \<and> client_id c = Some bid")
          case True
          then have "client_id c = Some bid" and "bid \<noteq> 0" by (auto simp: truthy_num_def)
          from api_buy_conflict[OF found this, of now] assms post Some b buyer have "d' = d" by simp
          then show ?thesis by (rule disjI1)
        next
          case False
          define t where "t = \<lparr>tx_id = next_id (map tx_id (transactions d)), tx_coin_id = cid,
               amount = coin_value c, transaction_date = now,
               seller_id = (if truthy_num (client_id c) then client_id c else None),
               buyer_id = bid\<rparr>"
          from api_buy_success[OF found False, of now] assms post Some b buyer
          have d': "d' = d\<lparr>coins := map (\<lambda>c'. if coin_id c' = cid then c'\<lparr>client_id := Some bid\<rparr> else c') (coins d),
             transactions := transactions d @ [t]\<rparr>" by (simp add: t_def)
          have "tx_coin_id t = cid \<and> buyer_id t = bid \<and> tx_id t = next_id (map tx_id (transactions d))"
            by (simp add: t_def)
          with found d' show ?thesis by blast
        qed
      qed
    qed
  qed
qed

lemma api_generate_coin_cases:
  assumes "api_generate_coin meth rnd body d = (r, d')"
  shows "d' = d \<or> (\<exists>c. client_id c = None \<and> coin_id c = next_id (map coin_id (coins d))
      \<and> d' = d\<lparr>coins := coins d @ [c]\<rparr>)"
proof (cases "meth = ''POST''")
  case False
  with assms show ?thesis by (simp add: api_generate_coin_def)
next
  case post: True
  show ?thesis
  proof (cases body)
    case None
    with assms post show ?thesis by (simp add: api_generate_coin_def)
  next
    case (Some amt)
    obtain n b1 b2 b3 where l: "draw_loop rnd (map (\<lambda>c. (bit1 c, bit2 c, bit3 c)) (coins d)) 0 = (n, b1, b2, b3)"
      by (cases "draw_loop rnd (map (\<lambda>c. (bit1 c, bit2 c, bit3 c)) (coins d)) 0") auto
    show ?thesis
    proof (cases "n > 10000")
      case True
      with assms post Some l show ?thesis by (simp add: api_generate_coin_def)
    next
      case False
      with assms post Some l
      have "d' = d\<lparr>coins := coins d @ [\<lparr>coin_id = next_id (map coin_id (coins d)), coin_value = amt,
                            bit1 = b1, bit2 = b2, bit3 = b3, client_id = None\<rparr>]\<rparr>"
        by (simp add: api_generate_coin_def)
      then show ?thesis
        by (intro disjI2 exI[of _ "\<lparr>coin_id = next_id (map coin_id (coins d)), coin_value = amt,
                            bit1 = b1, bit2 = b2, bit3 = b3, client_id = None\<rparr>"]) simp
    qed
  qed
qed

lemma api_register_cases:
  assumes "api_register meth hash body d = (r, d')"
  shows "\<exists>cs. d' = d\<lparr>clients := clients d @ cs\<rparr>"
proof -
  have "d' = d \<or> (\<exists>c. d' = d\<lparr>clients := clients d @ [c]\<rparr>)"
    using assms by (auto simp: api_register_def Let_def split: if_splits option.splits)
  then show ?thesis
  proof
    assume "d' = d"
    then have "d' = d\<lparr>clients := clients d @ []\<rparr>" by simp
    then show ?thesis by blast
  next
    assume "\<exists>c. d' = d\<lparr>clients := clients d @ [c]\<rparr>"
    then show ?thesis by blast
  qed
qed


lemma buy_keeps_owner_inv:
  assumes inv: "owner_inv d"
    and t: "tx_coin_id t = cid" "buyer_id t = bid" "tx_id t = next_id (map tx_id (transactions d))"
    and d': "d' = d\<lparr>coins := map (\<lambda>c'. if coin_id c' = cid then c'\<lparr>client_id := Some bid\<rparr> else c') (coins d),
               transactions := transactions d @ [t]\<rparr>"
  shows "owner_inv d'"
proof -
  let ?f = "\<lambda>c'. if coin_id c' = cid then c'\<lparr>client_id := Some bid\<rparr> else c'"
  have newer: "\<forall>t' \<in> set (transactions d). tx_id t' < tx_id t"
  proof
    fix t' assume "t' \<in> set (transactions d)"
    then have "tx_id t' \<in> set (map tx_id (transactions d))" by simp
    then show "tx_id t' < tx_id t" unfolding t(3) by (rule next_id_gt)
  qed
  have cs: "coins d' = map ?f (coins d)" and ts: "transactions d' = transactions d @ [t]"
    by (simp_all add: d')
  have "\<forall>c' \<in> set (map ?f (coins d)). client_id c' = latest_buyer (transactions d @ [t]) (coin_id c')"
  proof
    fix c' assume "c' \<in> set (map ?f (coins d))"
    then obtain c where c: "c \<in> set (coins d)" and c': "c' = ?f c" unfolding set_map by blast
    show "client_id c' = latest_buyer (transactions d @ [t]) (coin_id c')"
    proof (cases "coin_id c = cid")
      case True
      then have "client_id c' = Some bid" and "coin_id c' = cid" by (simp_all add: c')
      moreover have "latest_buyer (transactions d @ [t]) cid = Some bid"
        unfolding latest_buyer_def latest_tx_append_same[OF newer t(1)] by (simp add: t(2))
      ultimately show ?thesis by simp
    next
      case False
      then have same: "c' = c" by (simp add: c')
      have neq: "tx_coin_id t \<noteq> coin_id c" using False t(1) by simp
      have "latest_tx (transactions d @ [t]) (coin_id c) = latest_tx (transactions d) (coin_id c)"
        by (rule latest_tx_append_other[OF neq])
      then have "latest_buyer (transactions d @ [t]) (coin_id c) = latest_buyer (transactions d) (coin_id c)"
        unfolding latest_buyer_def by simp
      moreover have "client_id c = latest_buyer (transactions d) (coin_id c)"
        using inv c unfolding owner_inv_def by blast
      ultimately show ?thesis unfolding same by simp
    qed
  qed
  then show ?thesis unfolding owner_inv_def cs ts .
qed

lemma buy_keeps_coin_refs:
  assumes refs: "coin_refs d"
    and found: "find (\<lambda>c. coin_id c = cid) (coins d) = Some c"
    and t: "tx_coin_id t = cid"
    and d': "d' = d\<lparr>coins := map (\<lambda>c'. if coin_id c' = cid then c'\<lparr>client_id := Some bid\<rparr> else c') (coins d),
               transactions := transactions d @ [t]\<rparr>"
  shows "coin_refs d'"
proof -
  let ?f = "\<lambda>c'. if coin_id c' = cid then c'\<lparr>client_id := Some bid\<rparr> else c'"
  have ids: "coin_id ` set (coins d') = coin_id ` set (coins d)"
    using arg_cong[OF set_owner_coin_ids[of cid "Some bid" "coins d"], of set]
    unfolding set_map by (simp add: d')
  have "c \<in> set (coins d) \<and> coin_id c = cid"
    using found unfolding find_Some_iff by (auto simp: nth_mem)
  then have new: "tx_coin_id t \<in> coin_id ` set (coins d)" using t by blast
  have old: "\<forall>t' \<in> set (transactions d). tx_coin_id t' \<in> coin_id ` set (coins d)"
    using refs unfolding coin_refs_def by force
  have ts: "set (transactions d') = insert t (set (transactions d))" by (simp add: d')
  have "\<forall>t' \<in> set (transactions d'). tx_coin_id t' \<in> coin_id ` set (coins d')"
    unfolding ids ts using new old by blast
  then show ?thesis unfolding coin_refs_def by force
qed

lemma generate_keeps_owner_inv:
  assumes inv: "owner_inv d" and refs: "coin_refs d"
    and c: "client_id c = None" "coin_id c = next_id (map coin_id (coins d))"
    and d': "d' = d\<lparr>coins := coins d @ [c]\<rparr>"
  shows "owner_inv d'"
proof -
  have fresh: "coin_id c \<notin> coin_id ` set (coins d)"
    using next_id_fresh[of "map coin_id (coins d)"] unfolding c(2) set_map .
  have "\<forall>t \<in> set (transactions d). tx_coin_id t \<noteq> coin_id c"
  proof
    fix t assume "t \<in> set (transactions d)"
    then have "tx_coin_id t \<in> coin_id ` set (coins d)"
      using refs unfolding coin_refs_def by force
    with fresh show "tx_coin_id t \<noteq> coin_id c" by metis
  qed
  then have "latest_tx (transactions d) (coin_id c) = None"
    by (rule latest_tx_no_transaction)
  then have none: "latest_buyer (transactions d) (coin_id c) = None"
    unfolding latest_buyer_def by simp
  have cs: "set (coins d') = insert c (set (coins d))" and ts: "transactions d' = transactions d"
    by (simp_all add: d')
  have "\<forall>c' \<in> insert c (set (coins d)). client_id c' = latest_buyer (transactions d) (coin_id c')"
    using inv none c(1) unfolding owner_inv_def by simp
  then show ?thesis unfolding owner_inv_def cs ts .
qed

lemma generate_keeps_coin_refs:
  assumes refs: "coin_refs d" and d': "d' = d\<lparr>coins := coins d @ [c]\<rparr>"
  shows "coin_refs d'"
  using refs unfolding coin_refs_def d' by fastforce

lemma failed_buy_keeps_coin_refs:
  assumes refs: "coin_refs d"
    and d': "d' = d\<lparr>coins := map (\<lambda>c'. if coin_id c' = cid then c'\<lparr>client_id := v\<rparr> else c') (coins d)\<rparr>"
  shows "coin_refs d'"
proof -
  have ids: "coin_id ` set (coins d') = coin_id ` set (coins d)"
    using arg_cong[OF set_owner_coin_ids[of cid v "coins d"], of set]
    unfolding set_map by (simp add: d')
  have old: "\<forall>t' \<in> set (transactions d). tx_coin_id t' \<in> coin_id ` set (coins d)"
    using refs unfolding coin_refs_def by force
  have ts: "transactions d' = transactions d" by (simp add: d')
  have "\<forall>t' \<in> set (transactions d'). tx_coin_id t' \<in> coin_id ` set (coins d')"
    unfolding ids ts using old by blast
  then show ?thesis unfolding coin_refs_def by force
qed

lemma fetch_unchanged:
  assumes "case r of RegisterReq _ \<Rightarrow> False | BuyReq _ \<Rightarrow> False | GenerateCoinReq _ \<Rightarrow> False | _ \<Rightarrow> True"
  shows "snd (fetch e meth r d) = d"
  using assms
  by (cases r)
     (simp_all add: api_transactions_def api_login_def api_profile_def api_coins_def
        api_coin_history_def Let_def split: option.splits prod.splits)

lemma fetch_keeps_coin_refs:
  assumes "coin_refs d"
  shows "coin_refs (snd (fetch e meth r d))"
proof (cases r)
  case (RegisterReq body)
  obtain rs d' where f: "api_register meth (e_hash e) body d = (rs, d')"
    by (cases "api_register meth (e_hash e) body d") blast
  from api_register_cases[OF f] obtain cs where "d' = d\<lparr>clients := clients d @ cs\<rparr>" by blast
  then have "coins d' = coins d" "transactions d' = transactions d" by simp_all
  then have "coin_refs d'" using assms unfolding coin_refs_def by simp
  then show ?thesis unfolding RegisterReq fetch.simps f snd_conv .
next
  case (BuyReq body)
  obtain rs d' where f: "api_buy meth (e_now e) body d = (rs, d')"
    by (cases "api_buy meth (e_now e) body d") blast
  from api_buy_cases[OF f] have "coin_refs d'"
  proof (elim disjE exE conjE)
    assume "d' = d" then show ?thesis using assms by simp
  next
    fix cid
    assume "d' = d\<lparr>coins := map (\<lambda>c'. if coin_id c' = cid then c'\<lparr>client_id := None\<rparr> else c') (coins d)\<rparr>"
    then show ?thesis by (rule failed_buy_keeps_coin_refs[OF assms])
  next
    fix cid bid c t
    assume found: "find (\<lambda>c. coin_id c = cid) (coins d) = Some c" and t: "tx_coin_id t = cid"
      and d': "d' = d\<lparr>coins := map (\<lambda>c'. if coin_id c' = cid then c'\<lparr>client_id := Some bid\<rparr> else c') (coins d),
               transactions := transactions d @ [t]\<rparr>"
    show ?thesis by (rule buy_keeps_coin_refs[OF assms found t d'])
  qed
  then show ?thesis unfolding BuyReq fetch.simps f snd_conv .
next
  case (GenerateCoinReq body)
  obtain rs d' where f: "api_generate_coin meth (e_rnd e) body d = (rs, d')"
    by (cases "api_generate_coin meth (e_rnd e) body d") blast
  from api_generate_coin_cases[OF f] have "coin_refs d'"
  proof (elim disjE exE conjE)
    assume "d' = d" then show ?thesis using assms by simp
  next
    fix c assume "d' = d\<lparr>coins := coins d @ [c]\<rparr>"
    then show ?thesis by (rule generate_keeps_coin_refs[OF assms])
  qed
  then show ?thesis unfolding GenerateCoinReq fetch.simps f snd_conv .
next
  case (TransactionsReq q)
  then have "snd (fetch e meth r d) = d" by (intro fetch_unchanged) simp
  then show ?thesis using assms by simp
next
  case (LoginReq body)
  then have "snd (fetch e meth r d) = d" by (intro fetch_unchanged) simp
  then show ?thesis using assms by simp
next
  case (ProfileReq u)
  then have "snd (fetch e meth r d) = d" by (intro fetch_unchanged) simp
  then show ?thesis using assms by simp
next
  case (CoinsReq p l)
  then have "snd (fetch e meth r d) = d" by (intro fetch_unchanged) simp
  then show ?thesis using assms by simp
next
  case (CoinHistoryReq p)
  then have "snd (fetch e meth r d) = d" by (intro fetch_unchanged) simp
  then show ?thesis using assms by simp
qed

lemma serve_keeps_coin_refs: "coin_refs d \<Longrightarrow> coin_refs (serve rs d)"
proof (induction rs arbitrary: d)
  case Nil
  then show ?case by simp
next
  case (Cons x rs)
  obtain e meth r where x: "x = (e, meth, r)" by (cases x) blast
  have "coin_refs (snd (fetch e meth r d))" by (rule fetch_keeps_coin_refs[OF Cons.prems])
  from Cons.IH[OF this] show ?case unfolding x serve.simps .
qed

text \<open>
  What the operations do keep: as long as every purchase names its buyer, the owner of a
  coin stays the buyer of the coin's transaction of greatest identifier.
\<close>

lemma fetch_keeps_owner_inv:
  assumes "owner_inv d" and "coin_refs d" and "names_buyer r"
  shows "owner_inv (snd (fetch e meth r d))"
proof (cases r)
  case (RegisterReq body)
  obtain rs d' where f: "api_register meth (e_hash e) body d = (rs, d')"
    by (cases "api_register meth (e_hash e) body d") blast
  from api_register_cases[OF f] obtain cs where "d' = d\<lparr>clients := clients d @ cs\<rparr>" by blast
  then have "coins d' = coins d" "transactions d' = transactions d" by simp_all
  then have "owner_inv d'" using assms(1) unfolding owner_inv_def by simp
  then show ?thesis unfolding RegisterReq fetch.simps f snd_conv .
next
  case (BuyReq body)
  obtain rs d' where f: "api_buy meth (e_now e) body d = (rs, d')"
    by (cases "api_buy meth (e_now e) body d") blast
  from api_buy_cases[OF f] have "owner_inv d'"
  proof (elim disjE exE conjE)
    assume "d' = d" then show ?thesis using assms by simp
  next
    fix cid assume "body = Some (cid, None)"
    then have False using assms(3) by (simp add: names_buyer_def BuyReq)
    then show ?thesis ..
  next
    fix cid bid c t
    assume t: "tx_coin_id t = cid" "buyer_id t = bid" "tx_id t = next_id (map tx_id (transactions d))"
      and d': "d' = d\<lparr>coins := map (\<lambda>c'. if coin_id c' = cid then c'\<lparr>client_id := Some bid\<rparr> else c') (coins d),
               transactions := transactions d @ [t]\<rparr>"
    show ?thesis by (rule buy_keeps_owner_inv[OF assms(1) t d'])
  qed
  then show ?thesis unfolding BuyReq fetch.simps f snd_conv .
next
  case (GenerateCoinReq body)
  obtain rs d' where f: "api_generate_coin meth (e_rnd e) body d = (rs, d')"
    by (cases "api_generate_coin meth (e_rnd e) body d") blast
  from api_generate_coin_cases[OF f] have "owner_inv d'"
  proof (elim disjE exE conjE)
    assume "d' = d" then show ?thesis using assms by simp
  next
    fix c assume c: "client_id c = None" "coin_id c = next_id (map coin_id (coins d))"
      and d': "d' = d\<lparr>coins := coins d @ [c]\<rparr>"
    show ?thesis by (rule generate_keeps_owner_inv[OF assms(1,2) c d'])
  qed
  then show ?thesis unfolding GenerateCoinReq fetch.simps f snd_conv .
next
  case (TransactionsReq q)
  then have "snd (fetch e meth r d) = d" by (intro fetch_unchanged) simp
  then show ?thesis using assms by simp
next
  case (LoginReq body)
  then have "snd (fetch e meth r d) = d" by (intro fetch_unchanged) simp
  then show ?thesis using assms by simp
next
  case (ProfileReq u)
  then have "snd (fetch e meth r d) = d" by (intro fetch_unchanged) simp
  then show ?thesis using assms by simp
next
  case (CoinsReq p l)
  then have "snd (fetch e meth r d) = d" by (intro fetch_unchanged) simp
  then show ?thesis using assms by simp
next
  case (CoinHistoryReq p)
  then have "snd (fetch e meth r d) = d" by (intro fetch_unchanged) simp
  then show ?thesis using assms by simp
qed

lemma ownership_kept_when_buyers_are_named:
  assumes "owner_inv d" and "coin_refs d" and "list_all (\<lambda>(e, meth, r). names_buyer r) rs"
  shows "owner_inv (serve rs d)"
  using assms
proof (induction rs arbitrary: d)
  case Nil
  then show ?case by simp
next
  case (Cons x rs)
  obtain e meth r where x: "x = (e, meth, r)" by (cases x) blast
  have nb: "names_buyer r" and rest: "list_all (\<lambda>(e, meth, r). names_buyer r) rs"
    using Cons.prems(3) by (simp_all add: x)
  have 1: "owner_inv (snd (fetch e meth r d))"
    by (rule fetch_keeps_owner_inv[OF Cons.prems(1,2) nb])
  have 2: "coin_refs (snd (fetch e meth r d))" by (rule fetch_keeps_coin_refs[OF Cons.prems(2)])
  from Cons.IH[OF 1 2 rest] show ?case unfolding x serve.simps .
qed

text \<open>The ledger only grows at its end: no request updates or deletes a transaction.\<close>

lemma fetch_appends: "\<exists>ts. transactions (snd (fetch e meth r d)) = transactions d @ ts"
proof (cases r)
  case (RegisterReq body)
  obtain rs d' where f: "api_register meth (e_hash e) body d = (rs, d')"
    by (cases "api_register meth (e_hash e) body d") blast
  from api_register_cases[OF f] obtain cs where "d' = d\<lparr>clients := clients d @ cs\<rparr>" by blast
  then have "transactions d' = transactions d @ []" by simp
  then show ?thesis unfolding RegisterReq fetch.simps f snd_conv by (rule exI)
next
  case (BuyReq body)
  obtain rs d' where f: "api_buy meth (e_now e) body d = (rs, d')"
    by (cases "api_buy meth (e_now e) body d") blast
  from api_buy_cases[OF f] have "\<exists>ts. transactions d' = transactions d @ ts"
    by (elim disjE exE conjE) simp_all
  then show ?thesis unfolding BuyReq fetch.simps f snd_conv .
next
  case (GenerateCoinReq body)
  obtain rs d' where f: "api_generate_coin meth (e_rnd e) body d = (rs, d')"
    by (cases "api_generate_coin meth (e_rnd e) body d") blast
  from api_generate_coin_cases[OF f] have "\<exists>ts. transactions d' = transactions d @ ts"
    by (elim disjE exE conjE) simp_all
  then show ?thesis unfolding GenerateCoinReq fetch.simps f snd_conv .
next
  case (TransactionsReq q)
  then have "snd (fetch e meth r d) = d" by (intro fetch_unchanged) simp
  then show ?thesis by simp
next
  case (LoginReq body)
  then have "snd (fetch e meth r d) = d" by (intro fetch_unchanged) simp
  then show ?thesis by simp
next
  case (ProfileReq u)
  then have "snd (fetch e meth r d) = d" by (intro fetch_unchanged) simp
  then show ?thesis by simp
next
  case (CoinsReq p l)
  then have "snd (fetch e meth r d) = d" by (intro fetch_unchanged) simp
  then show ?thesis by simp
next
  case (CoinHistoryReq p)
  then have "snd (fetch e meth r d) = d" by (intro fetch_unchanged) simp
  then show ?thesis by simp
qed

lemma ledger_is_append_only: "\<exists>ts. transactions (serve rs d) = transactions d @ ts"
proof (induction rs arbitrary: d)
  case Nil
  then show ?case by simp
next
  case (Cons x rs)
  obtain e meth r where x: "x = (e, meth, r)" by (cases x) blast
  let ?d1 = "snd (fetch e meth r d)"
  from fetch_appends[of e meth r d] obtain ts1 where t1: "transactions ?d1 = transactions d @ ts1"
    by blast
  from Cons.IH[of ?d1] obtain ts2 where t2: "transactions (serve rs ?d1) = transactions ?d1 @ ts2"
    by blast
  have "transactions (serve rs ?d1) = transactions d @ (ts1 @ ts2)" by (simp add: t1 t2)
  then show ?case unfolding x serve.simps by blast
qed

lemma ownership_kept_in_a_session:
  "owner_inv db0 \<and> coin_refs db0
   \<and> list_all (\<lambda>(e, meth, r). names_buyer r) session0
   \<and> owner_inv (serve session0 db0) \<and> coin_refs (serve session0 db0)
   \<and> map client_id (coins (serve session0 db0)) = [Some 1, Some 1]
   \<and> map (\<lambda>t. (tx_id t, tx_coin_id t, seller_id t, buyer_id t)) (transactions (serve session0 db0))
       = [(1, 1, None, 7), (2, 2, None, 1), (3, 1, Some 7, 1)]"
proof -
  have 1: "owner_inv db0" by code_simp
  have 2: "coin_refs db0" by code_simp
  have 3: "list_all (\<lambda>(e, meth, r). names_buyer r) session0" by code_simp
  have 4: "map client_id (coins (serve session0 db0)) = [Some 1, Some 1]" by code_simp
  have 5: "map (\<lambda>t. (tx_id t, tx_coin_id t, seller_id t, buyer_id t)) (transactions (serve session0 db0))
       = [(1, 1, None, 7), (2, 2, None, 1), (3, 1, Some 7, 1)]" by code_simp
  show ?thesis
    using 1 2 3 4 5 ownership_kept_when_buyers_are_named[OF 1 2 3] serve_keeps_coin_refs[OF 2, of session0]
    by blast
qed

text \<open>
  C2, at an input where the code departs from it. In the example ledger client 1 owns
  coin 1, whose transactions are 1 (buyer 7) and 3 (buyer 1, the later by identifier and
  by date). A purchase of coin 1 whose body has no \<^verbatim>\<open>buyer_id\<close> is answered with status
  500, but on the way the handler has written the missing buyer over the owner: the
  ledger is as before, the coin still has its two transactions, and its \<^verbatim>\<open>client_id\<close> is
  null, not the buyer of its most recent transaction.
\<close>

theorem failed_buy_overwrites_owner:
  "case api_buy ''POST'' ''2025-03-04T08:00:00.000Z'' (Some (1, None)) ledger of (r, d') \<Rightarrow>
     r = Message 500 ''Error buying coin''
   \<and> map (\<lambda>c. (coin_id c, client_id c)) (coins ledger) = [(1, Some 1), (2, Some 1)]
   \<and> map (\<lambda>c. (coin_id c, client_id c)) (coins d') = [(1, None), (2, Some 1)]
   \<and> transactions d' = transactions ledger
   \<and> map (\<lambda>t. (tx_id t, transaction_date t, buyer_id t))
        (filter (\<lambda>t. tx_coin_id t = 1) (transactions d'))
      = [(1, ''2025-03-01T10:00:00.000Z'', 7), (3, ''2025-03-03T12:00:00.000Z'', 1)]"
  by code_simp


section \<open>Doubles: integers below \<open>2 ^ 53\<close> are exact\<close>













section \<open>Profile summary: the coins a user owns\<close>



lemma filter_unique:
  assumes "distinct xs" and "\<forall>x \<in> set xs. \<forall>y \<in> set xs. P x \<and> P y \<longrightarrow> x = y"
  shows "filter P xs = (case find P xs of None \<Rightarrow> [] | Some x \<Rightarrow> [x])"
  using assms
proof (induction xs)
  case Nil
  then show ?case by simp
next
  case (Cons x xs)
  show ?case
  proof (cases "P x")
    case True
    have "\<forall>y \<in> set xs. \<not> P y"
    proof
      fix y assume y: "y \<in> set xs"
      show "\<not> P y"
      proof
        assume "P y"
        with True y Cons.prems(2) have "x = y" by simp
        with y Cons.prems(1) show False by simp
      qed
    qed
    then have "filter P xs = []" by (simp add: filter_empty_conv)
    with True show ?thesis by simp
  next
    case False
    have "filter P xs = (case find P xs of None \<Rightarrow> [] | Some x \<Rightarrow> [x])"
      using Cons.prems by (intro Cons.IH) auto
    with False show ?thesis by simp
  qed
qed









section \<open>Joins over tables with primary keys\<close>

lemma filter_key:
  assumes "distinct (map f xs)"
  shows "filter (\<lambda>x. k = f x) xs = (case find (\<lambda>x. f x = k) xs of None \<Rightarrow> [] | Some x \<Rightarrow> [x])"
proof -
  have d: "distinct xs" and inj: "inj_on f (set xs)" using assms by (simp_all add: distinct_map)
  have u: "\<forall>x \<in> set xs. \<forall>y \<in> set xs. f x = k \<and> f y = k \<longrightarrow> x = y"
    using inj by (auto dest: inj_onD)
  have "filter (\<lambda>x. k = f x) xs = filter (\<lambda>x. f x = k) xs"
    by (rule filter_cong) auto
  with filter_unique[OF d u] show ?thesis by simp
qed

lemma join_buyer_one:
  assumes "distinct (map cl_id (clients d))"
  shows "join_buyer (clients d) t = (case buyer_of d t of None \<Rightarrow> [] | Some b \<Rightarrow> [b])"
  unfolding join_buyer_def buyer_of_def by (rule filter_key[OF assms])

lemma left_join_seller_one:
  assumes "distinct (map cl_id (clients d))"
  shows "left_join_seller (clients d) t = [seller_of d t]"
proof (cases "seller_id t")
  case None
  then show ?thesis by (simp add: left_join_seller_def seller_of_def)
next
  case (Some s)
  have "filter (\<lambda>c. seller_id t = Some (cl_id c)) (clients d) = filter (\<lambda>c. s = cl_id c) (clients d)"
    by (rule filter_cong) (auto simp: Some)
  also have "\<dots> = (case find (\<lambda>c. cl_id c = s) (clients d) of None \<Rightarrow> [] | Some x \<Rightarrow> [x])"
    by (rule filter_key[OF assms])
  finally show ?thesis
    by (simp add: left_join_seller_def seller_of_def Some split: option.splits)
qed





lemma insort_key_map:
  "insort_key f (g x) (map g xs) = map g (insort_key (\<lambda>y. f (g y)) x xs)"
  by (induction xs) simp_all

lemma sort_key_map: "sort_key f (map g xs) = map g (sort_key (\<lambda>y. f (g y)) xs)"
  by (induction xs) (simp_all add: insort_key_map)

section \<open>Listing transactions: what SQLite reads as limit and offset\<close>





lemma page_limit_no_filter: "page_of (q\<lparr>q_page := p, q_limit := l\<rparr>) = page_of (no_filter\<lparr>q_page := p, q_limit := l\<rparr>)"
  by (simp add: page_of_def)


section \<open>Listing transactions: the total\<close>






section \<open>Listing transactions: the page\<close>















section \<open>Coin history: the response and its presentation\<close>

lemma history_rows_of_coin:
  assumes c: "distinct (map cl_id (clients d))"
    and g: "\<And>t. g t = (t, seller_of d t, case buyer_of d t of None \<Rightarrow> dummy | Some b \<Rightarrow> b)"
  shows "filter (\<lambda>(t, s, b). tx_coin_id t = cid)
          (concat (map (\<lambda>t.
             concat (map (\<lambda>s. map (\<lambda>b. (t, s, b)) (join_buyer (clients d) t))
               (left_join_seller (clients d) t))) txs))
       = map g (filter (\<lambda>t. tx_coin_id t = cid \<and> buyer_of d t \<noteq> None) txs)"
  unfolding join_buyer_one[OF c] left_join_seller_one[OF c]
  by (induction txs) (auto simp: g split: option.splits)

text \<open>
  C7, amended. For every coin-history request with a coin id, on a table of clients
  with its primary key: the response holds exactly the transactions of that coin whose
  buyer is an existing client, in ascending order of transaction date, each with the
  names of its seller and buyer looked up in the table of clients; and the history modal
  shows an entry whose seller name is null with ``Original Issuer'' in the seller's
  place.
\<close>

theorem coin_history:
  assumes "distinct (map cl_id (clients d))"
  shows "api_coin_history ''GET'' (Some cid) d =
           (History (map (history_entry d)
              (sort_key transaction_date
                 (filter (\<lambda>t. tx_coin_id t = cid \<and> buyer_of d t \<noteq> None) (transactions d)))), d)
       \<and> sorted (map h_transaction_date (history_rows (fst (api_coin_history ''GET'' (Some cid) d))))
       \<and> (\<forall>e \<in> set (history_rows (fst (api_coin_history ''GET'' (Some cid) d))).
            h_seller_name e = None \<longrightarrow> seller_label e = ''Original Issuer'' @ arrow)"
proof -
  define dummy :: client where "dummy = \<lparr>cl_id = 0, cl_name = [], cl_email = [], cl_password = [],
      cl_phone = None, cl_address = None\<rparr>"
  define g where "g = (\<lambda>t. (t, seller_of d t, case buyer_of d t of None \<Rightarrow> dummy | Some b \<Rightarrow> b))"
  let ?xs = "filter (\<lambda>t. tx_coin_id t = cid \<and> buyer_of d t \<noteq> None) (transactions d)"
  have key: "(\<lambda>y. (case g y of (t, s, b) \<Rightarrow> transaction_date t)) = transaction_date"
    by (rule ext) (simp add: g_def)
  have "historyQuery d cid = sort_key (\<lambda>(t, s, b). transaction_date t) (map g ?xs)"
    unfolding historyQuery_def
    by (simp only: history_rows_of_coin[OF assms, of g dummy, unfolded g_def, OF refl, folded g_def])
  also have "\<dots> = map g (sort_key transaction_date ?xs)"
    unfolding sort_key_map key by (rule refl)
  finally have hq: "historyQuery d cid = map g (sort_key transaction_date ?xs)" .
  have sel: "select_history (g t) = history_entry d t" for t
    by (simp add: select_history_def g_def history_entry_def dummy_def split: option.splits)
  have rows: "map select_history (historyQuery d cid) = map (history_entry d) (sort_key transaction_date ?xs)"
    unfolding hq by (simp add: sel)
  have 1: "api_coin_history ''GET'' (Some cid) d =
           (History (map (history_entry d) (sort_key transaction_date ?xs)), d)"
    by (simp add: api_coin_history_def rows)
  have date: "map h_transaction_date (map (history_entry d) ys) = map transaction_date ys" for ys
    by (simp add: history_entry_def)
  have 2: "sorted (map h_transaction_date (history_rows (fst (api_coin_history ''GET'' (Some cid) d))))"
    unfolding 1 fst_conv history_rows.simps date by (rule sorted_sort_key)
  have 3: "\<forall>e \<in> set (history_rows (fst (api_coin_history ''GET'' (Some cid) d))).
            h_seller_name e = None \<longrightarrow> seller_label e = ''Original Issuer'' @ arrow"
    by (simp add: seller_label_def)
  show ?thesis by (intro conjI 1 2 3)
qed

theorem coin_history_witness:
  "distinct (map cl_id (clients ledger))
   \<and> api_coin_history ''GET'' (Some 1) ledger =
           (History (map (history_entry ledger)
              (sort_key transaction_date
                 (filter (\<lambda>t. tx_coin_id t = 1 \<and> buyer_of ledger t \<noteq> None) (transactions ledger)))), ledger)
   \<and> map h_id (history_rows (fst (api_coin_history ''GET'' (Some 1) ledger))) = [1, 3]
   \<and> map (history_line (\<lambda>date. date)) (history_rows (fst (api_coin_history ''GET'' (Some 1) ledger)))
       = [''2025-03-01T10:00:00.000Z: Original Issuer'' @ arrow @ ''Bob'',
          ''2025-03-03T12:00:00.000Z: Bob'' @ arrow @ ''Alice'']"
proof -
  have 1: "distinct (map cl_id (clients ledger))" by code_simp
  have 2: "map h_id (history_rows (fst (api_coin_history ''GET'' (Some 1) ledger))) = [1, 3]" by code_simp
  have 3: "map (history_line (\<lambda>date. date)) (history_rows (fst (api_coin_history ''GET'' (Some 1) ledger)))
       = [''2025-03-01T10:00:00.000Z: Original Issuer'' @ arrow @ ''Bob'',
          ''2025-03-03T12:00:00.000Z: Bob'' @ arrow @ ''Alice'']" by code_simp
  note t = coin_history[OF 1, where cid=1]
  show ?thesis by (intro conjI 1 2 3 conjunct1[OF t])
qed

text \<open>
  C7 as stated has the response hold exactly the transactions of the coin. The query
  joins the buyer, so a transaction whose \<^verbatim>\<open>buyer_id\<close> no client has is left out: coin 2
  of the ledger has the transactions 2 and 4, and its history holds transaction 2 only.
\<close>

theorem history_misses_orphan_transactions:
  "map tx_id (filter (\<lambda>t. tx_coin_id t = 2) (transactions orphan_ledger)) = [2, 4]
   \<and> map h_id (history_rows (fst (api_coin_history ''GET'' (Some 2) orphan_ledger))) = [2]"
  by code_simp



section \<open>The primary keys are kept\<close>

text \<open>
  The theorems on the queries are about tables without two rows of the same identifier.
  Every request leaves such tables behind, since a new row gets a generated identifier,
  and the empty database has them.
\<close>

lemma distinct_append_fresh:
  "distinct (map f xs) \<Longrightarrow> f x \<notin> set (map f xs) \<Longrightarrow> distinct (map f (xs @ [x]))"
  by simp

lemma fetch_keeps_keys:
  assumes "keys d"
  shows "keys (snd (fetch e meth r d))"
proof -
  have c: "distinct (map cl_id (clients d))" and k: "distinct (map coin_id (coins d))"
    and t: "distinct (map tx_id (transactions d))" using assms by (simp_all add: keys_def)
  show ?thesis
  proof (cases r)
    case (RegisterReq body)
    obtain rs d' where f: "api_register meth (e_hash e) body d = (rs, d')"
      by (cases "api_register meth (e_hash e) body d") blast
    have "d' = d \<or> (\<exists>x. cl_id x = next_id (map cl_id (clients d)) \<and> d' = d\<lparr>clients := clients d @ [x]\<rparr>)"
    proof (cases "meth = ''POST'' \<and> body \<noteq> None
        \<and> find (\<lambda>c. cl_email c = rb_email (the body)) (clients d) = None")
      case False
      then have "d' = d" using f by (auto simp: api_register_def split: option.splits if_splits)
      then show ?thesis by (rule disjI1)
    next
      case True
      then obtain b where b: "body = Some b" by auto
      define x where "x = \<lparr>cl_id = next_id (map cl_id (clients d)), cl_name = rb_name b,
          cl_email = rb_email b, cl_password = e_hash e (rb_password b),
          cl_phone = rb_phone b, cl_address = rb_address b\<rparr>"
      have "d' = d\<lparr>clients := clients d @ [x]\<rparr>"
        using f True b by (simp add: api_register_def x_def)
      moreover have "cl_id x = next_id (map cl_id (clients d))" by (simp add: x_def)
      ultimately show ?thesis by blast
    qed
    then have "keys d'"
    proof
      assume "d' = d" then show ?thesis using assms by simp
    next
      assume "\<exists>x. cl_id x = next_id (map cl_id (clients d)) \<and> d' = d\<lparr>clients := clients d @ [x]\<rparr>"
      then obtain x where x: "cl_id x = next_id (map cl_id (clients d))"
        and d': "d' = d\<lparr>clients := clients d @ [x]\<rparr>" by blast
      have "cl_id x \<notin> set (map cl_id (clients d))" unfolding x by (rule next_id_fresh)
      from distinct_append_fresh[OF c this] show ?thesis using k t by (simp add: keys_def d')
    qed
    then show ?thesis unfolding RegisterReq fetch.simps f snd_conv .
  next
    case (TransactionsReq q)
    then have "snd (fetch e meth r d) = d" by (intro fetch_unchanged) simp
    then show ?thesis using assms by simp
  next
    case (LoginReq body)
    then have "snd (fetch e meth r d) = d" by (intro fetch_unchanged) simp
    then show ?thesis using assms by simp
  next
    case (ProfileReq u)
    then have "snd (fetch e meth r d) = d" by (intro fetch_unchanged) simp
    then show ?thesis using assms by simp
  next
    case (CoinsReq p l)
    then have "snd (fetch e meth r d) = d" by (intro fetch_unchanged) simp
    then show ?thesis using assms by simp
  next
    case (BuyReq body)
    obtain rs d' where f: "api_buy meth (e_now e) body d = (rs, d')"
      by (cases "api_buy meth (e_now e) body d") blast
    from api_buy_cases[OF f] have "keys d'"
    proof (elim disjE exE conjE)
      assume "d' = d" then show ?thesis using assms by simp
    next
      fix cid
      assume d': "d' = d\<lparr>coins := map (\<lambda>c'. if coin_id c' = cid then c'\<lparr>client_id := None\<rparr> else c') (coins d)\<rparr>"
      have 2: "map coin_id (coins d') = map coin_id (coins d)"
        by (simp add: d' set_owner_coin_ids)
      have 3: "clients d' = clients d" "transactions d' = transactions d" by (simp_all add: d')
      show ?thesis unfolding keys_def 2 3 using c k t by simp
    next
      fix cid bid c' x
      assume x: "tx_id x = next_id (map tx_id (transactions d))"
        and d': "d' = d\<lparr>coins := map (\<lambda>c'. if coin_id c' = cid then c'\<lparr>client_id := Some bid\<rparr> else c') (coins d),
                 transactions := transactions d @ [x]\<rparr>"
      have "tx_id x \<notin> set (map tx_id (transactions d))" unfolding x by (rule next_id_fresh)
      from distinct_append_fresh[OF t this]
      have 1: "distinct (map tx_id (transactions d'))" by (simp add: d')
      have 2: "map coin_id (coins d') = map coin_id (coins d)"
        by (simp add: d' set_owner_coin_ids)
      have 3: "clients d' = clients d" by (simp add: d')
      show ?thesis unfolding keys_def 2 3 using 1 c k by simp
    qed
    then show ?thesis unfolding BuyReq fetch.simps f snd_conv .
  next
    case (GenerateCoinReq body)
    obtain rs d' where f: "api_generate_coin meth (e_rnd e) body d = (rs, d')"
      by (cases "api_generate_coin meth (e_rnd e) body d") blast
    have "keys d'"
      using api_generate_coin_cases[OF f]
    proof
      assume "d' = d" then show ?thesis using assms by simp
    next
      assume "\<exists>c. client_id c = None \<and> coin_id c = next_id (map coin_id (coins d))
        \<and> d' = d\<lparr>coins := coins d @ [c]\<rparr>"
      then obtain x where x: "coin_id x = next_id (map coin_id (coins d))"
        and d': "d' = d\<lparr>coins := coins d @ [x]\<rparr>" by blast
      have "coin_id x \<notin> set (map coin_id (coins d))" unfolding x by (rule next_id_fresh)
      from distinct_append_fresh[OF k this] show ?thesis using c t by (simp add: keys_def d')
    qed
    then show ?thesis unfolding GenerateCoinReq fetch.simps f snd_conv .
  next
    case (CoinHistoryReq p)
    then have "snd (fetch e meth r d) = d" by (intro fetch_unchanged) simp
    then show ?thesis using assms by simp
  qed
qed

lemma serve_keeps_keys: "keys d \<Longrightarrow> keys (serve rs d)"
proof (induction rs arbitrary: d)
  case Nil
  then show ?case by simp
next
  case (Cons x rs)
  obtain e meth r where x: "x = (e, meth, r)" by (cases x) blast
  have "keys (snd (fetch e meth r d))" by (rule fetch_keeps_keys[OF Cons.prems])
  from Cons.IH[OF this] show ?case unfolding x serve.simps .
qed

lemma empty_database_is_well_formed:
  "keys \<lparr>clients = [], coins = [], transactions = []\<rparr>
   \<and> owner_inv \<lparr>clients = [], coins = [], transactions = []\<rparr>
   \<and> coin_refs \<lparr>clients = [], coins = [], transactions = []\<rparr>"
  by (simp add: keys_def owner_inv_def coin_refs_def)



end
